theory Spec2Isabelle
  imports Complex_Main
begin

section \<open>The model\<close>

text \<open>
  The model follows \<^verbatim>\<open>backend/assessment_service/index.js\<close> and
  \<^verbatim>\<open>backend/proctor_service/index.js\<close>. A MongoDB collection is the list of its
  documents in insertion order; \<^verbatim>\<open>findById\<close> and \<^verbatim>\<open>findOne\<close> return the first
  document that matches, \<^verbatim>\<open>save\<close> of a new document appends it and \<^verbatim>\<open>save\<close> of a
  loaded document writes it to the first document carrying its \<^verbatim>\<open>_id\<close> (in the
  proctor service, where other requests may have written the document since it was
  loaded, the paths that the handler has changed). Every
  \<^verbatim>\<open>return res.status(...)\<close> of a handler is an \<open>Inl\<close> branch, and an exception
  caught by the handler's \<^verbatim>\<open>catch\<close> is \<open>Inl ServerError\<close> with whatever had been
  saved before it.

  A handler of the assessment service is one function from the request and the stores
  to a response and the new stores: the request as it is served when no other request
  is served in between. The proctor service is modelled in steps, one for each database
  operation a handler awaits, so that the steps of requests in flight together can
  follow one another in any order.

  Object ids are strings (the handlers compare them through \<^verbatim>\<open>toString()\<close>),
  a \<^verbatim>\<open>Date\<close> is its number of milliseconds since the epoch, points are
  integers, and the duration is a whole number of minutes. Sums and differences of these
  integers are exact (as they are in the program below \<open>2 ^ 53\<close>); a quotient, and
  the anomaly score that accumulates \<^verbatim>\<open>0.2\<close> and \<^verbatim>\<open>0.5\<close>, is a double-precision
  number, rounded as the program rounds it.
\<close>

section \<open>JavaScript numbers\<close>

text \<open>
  A JavaScript number is an IEEE 754 double: a finite value (kept here as the rational
  it denotes; the two zeros are not told apart), \<^verbatim>\<open>NaN\<close>, or an infinity.
\<close>

datatype number = Num rat | NaN | PosInfinity | NegInfinity

definition pow2 :: "int \<Rightarrow> rat" where
  "pow2 e = (if 0 \<le> e then 2 ^ nat e else 1 / 2 ^ nat (- e))"

text \<open>Rounding to the nearest integer, a tie going to the even one.\<close>

definition round_half_even :: "rat \<Rightarrow> int" where
  "round_half_even q =
     (let f = \<lfloor>q\<rfloor>; d = q - of_int f
      in if d < 1 / 2 then f else if 1 / 2 < d then f + 1 else if even f then f else f + 1)"

text \<open>
  The doubles from \<open>pow2 (e + 52)\<close> to \<open>pow2 (e + 53)\<close> are the multiples of
  \<open>pow2 e\<close>, for \<open>e\<close> from \<open>-1074\<close> to \<open>971\<close>; below \<open>pow2 (-1022)\<close> they are
  the multiples of \<open>pow2 (-1074)\<close>. \<open>in_binade x e\<close> says that \<open>e\<close> is the exponent of
  that spacing at \<open>x \<ge> 0\<close>; \<open>round_pos x\<close> rounds \<open>x\<close> to the nearest multiple, and
  to infinity beyond the largest double.
\<close>

definition in_binade :: "rat \<Rightarrow> int \<Rightarrow> bool" where
  "in_binade x e = (x < pow2 (e + 53) \<and> (e = - 1074 \<or> pow2 (e + 52) \<le> x))"

definition exponents :: "int list" where
  "exponents = [- 1074..971]"

definition round_pos :: "rat \<Rightarrow> number" where
  "round_pos x =
     (case find (in_binade x) exponents of
        None \<Rightarrow> PosInfinity
      | Some e \<Rightarrow>
          let m = round_half_even (x / pow2 e)
          in if e = 971 \<and> m = 2 ^ 53 then PosInfinity else Num (of_int m * pow2 e))"

definition negate :: "number \<Rightarrow> number" where
  "negate n =
     (case n of
        Num r \<Rightarrow> Num (- r)
      | NaN \<Rightarrow> NaN
      | PosInfinity \<Rightarrow> NegInfinity
      | NegInfinity \<Rightarrow> PosInfinity)"

text \<open>The double nearest to a rational: the value of a decimal literal, and of the exact
  result of an arithmetic operation.\<close>

definition to_double :: "rat \<Rightarrow> number" where
  "to_double x = (if x < 0 then negate (round_pos (- x)) else round_pos x)"

fun js_add :: "number \<Rightarrow> number \<Rightarrow> number" where
  "js_add (Num a) (Num b) = to_double (a + b)"
| "js_add NaN y = NaN"
| "js_add x NaN = NaN"
| "js_add PosInfinity NegInfinity = NaN"
| "js_add NegInfinity PosInfinity = NaN"
| "js_add PosInfinity y = PosInfinity"
| "js_add x PosInfinity = PosInfinity"
| "js_add NegInfinity y = NegInfinity"
| "js_add x NegInfinity = NegInfinity"

text \<open>The comparison \<^verbatim>\<open><=\<close> of two numbers.\<close>

fun js_le :: "number \<Rightarrow> number \<Rightarrow> bool" where
  "js_le (Num a) (Num b) = (a \<le> b)"
| "js_le NaN y = False"
| "js_le x NaN = False"
| "js_le x PosInfinity = True"
| "js_le NegInfinity y = True"
| "js_le PosInfinity y = False"
| "js_le x NegInfinity = False"

text \<open>Division of two integers and multiplication by a constant, as lines 710, 788 and
  811 use them: a zero divisor gives \<^verbatim>\<open>NaN\<close> or an infinity.\<close>

definition js_div :: "int \<Rightarrow> int \<Rightarrow> number" where
  "js_div x y =
     (if y = 0 then (if x = 0 then NaN else if x > 0 then PosInfinity else NegInfinity)
      else to_double (of_int x / of_int y))"

definition js_times :: "number \<Rightarrow> rat \<Rightarrow> number" where
  "js_times x k =
     (case x of
        Num r \<Rightarrow> to_double (r * k)
      | NaN \<Rightarrow> NaN
      | PosInfinity \<Rightarrow> (if k > 0 then PosInfinity else if k < 0 then NegInfinity else NaN)
      | NegInfinity \<Rightarrow> (if k > 0 then NegInfinity else if k < 0 then PosInfinity else NaN))"

text \<open>The values a rounding of a non-negative rational can take, an integer of at most
  \<open>2 ^ 53\<close> times a power of two; and the scores the proctor service can hold, such
  a value or positive infinity.\<close>

definition dyadic :: "rat \<Rightarrow> bool" where
  "dyadic r = (\<exists>m e. r = of_int m * pow2 e \<and> 0 \<le> m \<and> m \<le> 2 ^ 53 \<and> - 1074 \<le> e)"

definition score_ok :: "number \<Rightarrow> bool" where
  "score_ok n = (n = PosInfinity \<or> (\<exists>a. n = Num a \<and> 0 \<le> a \<and> dyadic a))"

section \<open>Assessment service: data model\<close>

type_synonym oid = string

datatype json =
    JNull
  | JBool bool
  | JNum int
  | JStr string
  | JArr "json list"
  | JObj "(string \<times> json) list"

datatype qtype = MultipleChoice | SingleChoice | TrueFalse | FillInTheBlank | Essay | Coding

datatype astatus = Draft | Published | Archived

datatype atstatus = InProgress | Completed | Abandoned | TimedOut


text \<open>The responses of the handlers other than success, by their message:
  \<^item> \<open>NotFound\<close>: 404, \<^verbatim>\<open>... not found\<close>;
  \<^item> \<open>Forbidden\<close>: 403, \<^verbatim>\<open>Permission denied\<close>;
  \<^item> \<open>NotPublished\<close>: 400, \<^verbatim>\<open>Assessment is not published\<close>;
  \<^item> \<open>NotStartedYet\<close>: 400, \<^verbatim>\<open>Assessment has not started yet\<close>;
  \<^item> \<open>AlreadyEnded\<close>: 400, \<^verbatim>\<open>Assessment has already ended\<close>;
  \<^item> \<open>AttemptLimitExceeded\<close>: 400, \<^verbatim>\<open>Maximum attempts reached\<close>;
  \<^item> \<open>AlreadyFinalized\<close>: 400, \<^verbatim>\<open>Attempt is already completed\<close>;
  \<^item> \<open>TimeExpired\<close>: 400, \<^verbatim>\<open>Assessment time limit exceeded\<close>;
  \<^item> \<open>UnknownQuestion\<close>: 400, \<^verbatim>\<open>Question not found in this attempt\<close>;
  \<^item> \<open>SessionAlreadyActive\<close>: 400, \<^verbatim>\<open>Active session already exists\<close>;
  \<^item> \<open>NotActive\<close>: 400, \<^verbatim>\<open>Session is not active\<close>;
  \<^item> \<open>ServerError\<close>: 500, \<^verbatim>\<open>Server error\<close> (the handler's \<^verbatim>\<open>catch\<close>).\<close>

datatype error =
    NotFound
  | Forbidden
  | NotPublished
  | NotStartedYet
  | AlreadyEnded
  | AttemptLimitExceeded
  | AlreadyFinalized
  | TimeExpired
  | UnknownQuestion
  | SessionAlreadyActive
  | NotActive
  | ServerError

record qoption =
  o_id :: string
  o_text :: string
  o_isCorrect :: bool

record question =
  q_id :: oid
  q_type :: qtype
  q_options :: "qoption list"
  q_points :: int

text \<open>An entry of \<^verbatim>\<open>assessment.questions\<close>: the question's id and the points the
  assessment gives it; \<open>None\<close> is an entry that carries no \<^verbatim>\<open>points\<close>.\<close>

record aquestion =
  aq_question :: oid
  aq_points :: "int option"

record assessment =
  as_id :: oid
  as_title :: string
  as_duration :: int
  as_totalPoints :: int
  as_passingScore :: int
  as_questions :: "aquestion list"
  as_randomizeQuestions :: bool
  as_allowedAttempts :: int
  as_startTime :: "int option"
  as_endTime :: "int option"
  as_createdBy :: oid
  as_status :: astatus

record answer_slot =
  a_question :: oid
  a_answer :: "json option"
  a_isCorrect :: "bool option"
  a_points :: int
  a_timeSpent :: "int option"

record attempt =
  at_id :: oid
  at_assessment :: oid
  at_user :: oid
  at_startTime :: int
  at_endTime :: "int option"
  at_completionTime :: "number option"
  at_answers :: "answer_slot list"
  at_totalScore :: int
  at_maxPossibleScore :: int
  at_status :: atstatus

text \<open>The value stored in Redis under \<^verbatim>\<open>attempt_<id>\<close>, with the \<^verbatim>\<open>EX\<close>
  argument (seconds to live) it was stored with.\<close>

record cache_entry =
  c_assessmentId :: oid
  c_userId :: oid
  c_startTime :: int
  c_ttl :: int

record db =
  questions :: "question list"
  assessments :: "assessment list"
  attempts :: "attempt list"
  cache :: "(string \<times> cache_entry) list"

section \<open>Assessment service: storage helpers\<close>

definition find_question :: "oid \<Rightarrow> question list \<Rightarrow> question option" where
  "find_question i qs = find (\<lambda>q. q_id q = i) qs"

definition find_assessment :: "oid \<Rightarrow> assessment list \<Rightarrow> assessment option" where
  "find_assessment i xs = find (\<lambda>a. as_id a = i) xs"

definition find_attempt :: "oid \<Rightarrow> attempt list \<Rightarrow> attempt option" where
  "find_attempt i xs = find (\<lambda>a. at_id a = i) xs"

text \<open>\<^verbatim>\<open>attempt.save()\<close> on a loaded attempt: the first document with its id is
  replaced.\<close>

fun save_attempt :: "attempt \<Rightarrow> attempt list \<Rightarrow> attempt list" where
  "save_attempt a [] = []"
| "save_attempt a (x # xs) = (if at_id x = at_id a then a # xs else x # save_attempt a xs)"

definition attempt_key :: "oid \<Rightarrow> string" where
  "attempt_key i = ''attempt_'' @ i"

definition redis_set :: "string \<Rightarrow> cache_entry \<Rightarrow> (string \<times> cache_entry) list \<Rightarrow> (string \<times> cache_entry) list" where
  "redis_set k v c = (k, v) # filter (\<lambda>p. fst p \<noteq> k) c"

definition redis_del :: "string \<Rightarrow> (string \<times> cache_entry) list \<Rightarrow> (string \<times> cache_entry) list" where
  "redis_del k c = filter (\<lambda>p. fst p \<noteq> k) c"

text \<open>\<^verbatim>\<open>Attempt.countDocuments({assessment, user})\<close>: the filter names the assessment
  and the user and nothing else.\<close>

definition count_attempts :: "oid \<Rightarrow> oid \<Rightarrow> attempt list \<Rightarrow> int" where
  "count_attempts aid uid xs =
     int (length (filter (\<lambda>a. at_assessment a = aid \<and> at_user a = uid) xs))"

section \<open>Grading\<close>

text \<open>Lines 734-741: the ids of the options flagged correct, and the comparison of a
  submitted value with them.\<close>

definition correctOptionIds :: "question \<Rightarrow> string list" where
  "correctOptionIds q = map o_id (filter o_isCorrect (q_options q))"

definition multiple_choice_correct :: "question \<Rightarrow> json \<Rightarrow> bool" where
  "multiple_choice_correct q answer =
     (case answer of
        JArr ids \<Rightarrow>
          length ids = length (correctOptionIds q) \<and>
          list_all (\<lambda>i. i \<in> set (map JStr (correctOptionIds q))) ids
      | _ \<Rightarrow> False)"

text \<open>Lines 747-748: \<^verbatim>\<open>correctOption && correctOption.id === answer\<close>. Without a
  correct option the value is \<^verbatim>\<open>undefined\<close>, which the slot stores as no value.\<close>

definition single_choice_correct :: "question \<Rightarrow> json \<Rightarrow> bool option" where
  "single_choice_correct q answer =
     (case find o_isCorrect (q_options q) of
        None \<Rightarrow> None
      | Some c \<Rightarrow> Some (JStr (o_id c) = answer))"

definition grade :: "question \<Rightarrow> json \<Rightarrow> answer_slot \<Rightarrow> answer_slot" where
  "grade q answer slot =
     (if q_type q \<in> {MultipleChoice, SingleChoice, TrueFalse} then
        (if q_type q = MultipleChoice then
           (let isCorrect = multiple_choice_correct q answer
            in slot\<lparr>a_isCorrect := Some isCorrect,
                    a_points := (if isCorrect then q_points q else 0)\<rparr>)
         else
           (let isCorrect = single_choice_correct q answer
            in slot\<lparr>a_isCorrect := isCorrect,
                    a_points := (if isCorrect = Some True then q_points q else 0)\<rparr>))
      else slot)"

section \<open>Creating an assessment\<close>

text \<open>The body of \<^verbatim>\<open>POST /api/assessments\<close>: a field the request leaves out is
  \<open>None\<close>. The schema requires the title and the duration and gives the other
  fields their defaults.\<close>

record assessment_body =
  b_title :: "string option"
  b_duration :: "int option"
  b_passingScore :: "int option"
  b_questions :: "aquestion list option"
  b_randomizeQuestions :: "bool option"
  b_allowedAttempts :: "int option"
  b_startTime :: "int option"
  b_endTime :: "int option"
  b_status :: "astatus option"

text \<open>Lines 480-486: \<^verbatim>\<open>totalPoints += q.points || 0\<close> over the questions.\<close>

definition points_or_zero :: "aquestion \<Rightarrow> int" where
  "points_or_zero q = (case aq_points q of None \<Rightarrow> 0 | Some p \<Rightarrow> p)"

definition calc_totalPoints :: "aquestion list option \<Rightarrow> int" where
  "calc_totalPoints body_questions =
     (case body_questions of
        None \<Rightarrow> 0
      | Some qs \<Rightarrow> foldl (\<lambda>totalPoints q. totalPoints + points_or_zero q) 0 qs)"

definition create_assessment ::
  "string \<Rightarrow> oid \<Rightarrow> oid \<Rightarrow> assessment_body \<Rightarrow> db \<Rightarrow> (error + assessment) \<times> db" where
  "create_assessment role userId new_id body s =
     (if role \<notin> {''admin'', ''instructor''} then (Inl Forbidden, s)
      else
        let totalPoints = calc_totalPoints (b_questions body) in
        (case (b_title body, b_duration body) of
           (Some title, Some duration) \<Rightarrow>
             (let a = \<lparr>as_id = new_id,
                       as_title = title,
                       as_duration = duration,
                       as_totalPoints = totalPoints,
                       as_passingScore = (case b_passingScore body of None \<Rightarrow> 0 | Some p \<Rightarrow> p),
                       as_questions = (case b_questions body of None \<Rightarrow> [] | Some qs \<Rightarrow> qs),
                       as_randomizeQuestions =
                         (case b_randomizeQuestions body of None \<Rightarrow> False | Some r \<Rightarrow> r),
                       as_allowedAttempts =
                         (case b_allowedAttempts body of None \<Rightarrow> 1 | Some n \<Rightarrow> n),
                       as_startTime = b_startTime body,
                       as_endTime = b_endTime body,
                       as_createdBy = userId,
                       as_status = (case b_status body of None \<Rightarrow> Draft | Some st \<Rightarrow> st)\<rparr>
              in (Inr a, s\<lparr>assessments := assessments s @ [a]\<rparr>))
         | _ \<Rightarrow> (Inl ServerError, s)))"

section \<open>StartAttempt\<close>

record start_result =
  sr_attemptId :: oid
  sr_questions :: "(oid \<times> int option) list"
  sr_duration :: int
  sr_startTime :: int

text \<open>Lines 613-621, the schedule check: a start time later than now, or an end time
  earlier than now, refuses the attempt.\<close>

definition window_check :: "assessment \<Rightarrow> int \<Rightarrow> error option" where
  "window_check a now =
     (if (case as_startTime a of None \<Rightarrow> False | Some st \<Rightarrow> st > now) then Some NotStartedYet
      else if (case as_endTime a of None \<Rightarrow> False | Some e \<Rightarrow> e < now) then Some AlreadyEnded
      else None)"

definition new_attempt :: "oid \<Rightarrow> oid \<Rightarrow> oid \<Rightarrow> int \<Rightarrow> aquestion list \<Rightarrow> int \<Rightarrow> attempt" where
  "new_attempt new_id aid userId created qs maxScore =
     \<lparr>at_id = new_id,
      at_assessment = aid,
      at_user = userId,
      at_startTime = created,
      at_endTime = None,
      at_completionTime = None,
      at_answers = map (\<lambda>q. \<lparr>a_question = aq_question q, a_answer = None,
                                 a_isCorrect = None, a_points = 0, a_timeSpent = None\<rparr>) qs,
      at_totalScore = 0,
      at_maxPossibleScore = maxScore,
      at_status = InProgress\<rparr>"

text \<open>
  \<open>start_attempt shuffle now created new_id userId aid s\<close> is
  \<^verbatim>\<open>POST /api/assessments/:id/attempt\<close>. \<open>now\<close> is the clock read of line 614,
  \<open>created\<close> the one that gives the new attempt its \<^verbatim>\<open>startTime\<close>, \<open>new_id\<close> the
  id the attempt is given, and \<open>shuffle\<close> the outcome of the random sort of line 636.
  Redis refuses a \<^verbatim>\<open>SET ... EX n\<close> with \<open>n \<le> 0\<close>; the attempt has been saved by
  then.
\<close>

definition start_attempt ::
  "(aquestion list \<Rightarrow> aquestion list) \<Rightarrow> int \<Rightarrow> int \<Rightarrow> oid \<Rightarrow> oid \<Rightarrow> oid \<Rightarrow> db
     \<Rightarrow> (error + start_result) \<times> db" where
  "start_attempt shuffle now created new_id userId aid s =
     (case find_assessment aid (assessments s) of
        None \<Rightarrow> (Inl NotFound, s)
      | Some a \<Rightarrow>
          if as_status a \<noteq> Published then (Inl NotPublished, s)
          else
            (case window_check a now of
               Some e \<Rightarrow> (Inl e, s)
             | None \<Rightarrow>
                 if count_attempts (as_id a) userId (attempts s) \<ge> as_allowedAttempts a
                 then (Inl AttemptLimitExceeded, s)
                 else
                   let qs = (if as_randomizeQuestions a then shuffle (as_questions a)
                             else as_questions a);
                       att = new_attempt new_id (as_id a) userId created qs (as_totalPoints a);
                       s1 = s\<lparr>attempts := attempts s @ [att]\<rparr>;
                       expirationTime = as_duration a * 60
                   in
                     if expirationTime \<le> 0 then (Inl ServerError, s1)
                     else
                       (Inr \<lparr>sr_attemptId = at_id att,
                             sr_questions = map (\<lambda>q. (aq_question q, aq_points q)) qs,
                             sr_duration = as_duration a,
                             sr_startTime = at_startTime att\<rparr>,
                        s1\<lparr>cache := redis_set (attempt_key (at_id att))
                                     \<lparr>c_assessmentId = as_id a, c_userId = userId,
                                      c_startTime = at_startTime att, c_ttl = expirationTime\<rparr>
                                     (cache s1)\<rparr>)))"

section \<open>SubmitAnswer\<close>

fun findIndex :: "('a \<Rightarrow> bool) \<Rightarrow> 'a list \<Rightarrow> nat option" where
  "findIndex P [] = None"
| "findIndex P (x # xs) = (if P x then Some 0 else map_option Suc (findIndex P xs))"

text \<open>Lines 705-710: the time limit of an attempt, and the attempt as the handler
  leaves it when the limit has passed.\<close>

definition timeLimit :: "attempt \<Rightarrow> assessment \<Rightarrow> int" where
  "timeLimit att a = at_startTime att + as_duration a * 60000"

definition time_out :: "attempt \<Rightarrow> assessment \<Rightarrow> attempt" where
  "time_out att a =
     att\<lparr>at_status := TimedOut,
         at_endTime := Some (timeLimit att a),
         at_completionTime := Some (js_div (timeLimit att a - at_startTime att) 1000)\<rparr>"

text \<open>\<open>submit_answer now userId attemptId questionId answer s\<close> is
  \<^verbatim>\<open>POST /api/attempts/:id/answers\<close>. A missing assessment or question makes the
  handler read a field of \<^verbatim>\<open>null\<close>: the \<^verbatim>\<open>catch\<close> answers 500 and nothing has
  been saved.\<close>

definition submit_answer ::
  "int \<Rightarrow> oid \<Rightarrow> oid \<Rightarrow> oid \<Rightarrow> json \<Rightarrow> db \<Rightarrow> (error + unit) \<times> db" where
  "submit_answer now userId attemptId questionId answer s =
     (case find_attempt attemptId (attempts s) of
        None \<Rightarrow> (Inl NotFound, s)
      | Some att \<Rightarrow>
          if at_user att \<noteq> userId then (Inl Forbidden, s)
          else if at_status att \<noteq> InProgress then (Inl AlreadyFinalized, s)
          else
            (case find_assessment (at_assessment att) (assessments s) of
               None \<Rightarrow> (Inl ServerError, s)
             | Some a \<Rightarrow>
                 if now > timeLimit att a
                 then (Inl TimeExpired, s\<lparr>attempts := save_attempt (time_out att a) (attempts s)\<rparr>)
                 else
                   (case findIndex (\<lambda>x. a_question x = questionId) (at_answers att) of
                      None \<Rightarrow> (Inl UnknownQuestion, s)
                    | Some answerIndex \<Rightarrow>
                        let slot = (at_answers att ! answerIndex)
                                     \<lparr>a_answer := Some answer,
                                      a_timeSpent := Some ((now - at_startTime att) div 1000)\<rparr>
                        in
                          (case find_question questionId (questions s) of
                             None \<Rightarrow> (Inl ServerError, s)
                           | Some question \<Rightarrow>
                               let att' = att\<lparr>at_answers :=
                                                 (at_answers att)[answerIndex := grade question answer slot]\<rparr>
                               in (Inr (), s\<lparr>attempts := save_attempt att' (attempts s)\<rparr>)))))"

section \<open>FinishAttempt\<close>

record finish_result =
  r_totalScore :: int
  r_maxPossibleScore :: int
  r_percentage :: number
  r_passed :: bool
  r_completionTime :: number

text \<open>Lines 791-794: \<^verbatim>\<open>answers.reduce((total, answer) => total + (answer.points || 0), 0)\<close>.\<close>

definition calc_totalScore :: "answer_slot list \<Rightarrow> int" where
  "calc_totalScore answers = foldl (\<lambda>total answer. total + a_points answer) 0 answers"

definition complete_attempt :: "attempt \<Rightarrow> int \<Rightarrow> attempt" where
  "complete_attempt att now =
     att\<lparr>at_status := Completed,
         at_endTime := Some now,
         at_completionTime := Some (js_div (now - at_startTime att) 1000),
         at_totalScore := calc_totalScore (at_answers att)\<rparr>"

text \<open>\<open>finish_attempt now userId attemptId s\<close> is \<^verbatim>\<open>POST /api/attempts/:id/submit\<close>.
  The attempt is saved and its Redis key deleted before the assessment is read for
  the result.\<close>

definition finish_attempt ::
  "int \<Rightarrow> oid \<Rightarrow> oid \<Rightarrow> db \<Rightarrow> (error + finish_result) \<times> db" where
  "finish_attempt now userId attemptId s =
     (case find_attempt attemptId (attempts s) of
        None \<Rightarrow> (Inl NotFound, s)
      | Some att \<Rightarrow>
          if at_user att \<noteq> userId then (Inl Forbidden, s)
          else if at_status att \<noteq> InProgress then (Inl AlreadyFinalized, s)
          else
            let att' = complete_attempt att now;
                s' = s\<lparr>attempts := save_attempt att' (attempts s),
                       cache := redis_del (attempt_key (at_id att')) (cache s)\<rparr>
            in
              (case find_assessment (at_assessment att') (assessments s') of
                 None \<Rightarrow> (Inl ServerError, s')
               | Some a \<Rightarrow>
                   (Inr \<lparr>r_totalScore = at_totalScore att',
                         r_maxPossibleScore = at_maxPossibleScore att',
                         r_percentage =
                           js_times (js_div (at_totalScore att') (at_maxPossibleScore att')) 100,
                         r_passed = (at_totalScore att' \<ge> as_passingScore a),
                         r_completionTime = js_div (now - at_startTime att) 1000\<rparr>,
                    s')))"

section \<open>Proctor service: data model\<close>

text \<open>
  The proctor service keeps its own collections. Publishing to Kafka is taken to
  succeed and is not part of the state. \<^verbatim>\<open>anomalyScore\<close> is a JavaScript number,
  and \<^verbatim>\<open>+=\<close> on it is the addition of doubles.
\<close>

datatype pstatus = SessionActive | SessionCompleted | SessionTerminated

record device =
  d_required :: bool
  d_enabled :: bool

record settings =
  st_webcam :: device
  st_screenSharing :: device
  st_audio :: device
  st_fullScreenRequired :: bool
  st_browserLockdown :: bool

record proctor_event =
  e_id :: oid
  e_attemptId :: oid
  e_userId :: oid
  e_assessmentId :: oid
  e_type :: string
  e_timestamp :: int
  e_details :: "json option"
  e_severity :: string
  e_snapshot :: "json option"

record proctor_session =
  ps_id :: oid
  ps_attemptId :: oid
  ps_userId :: oid
  ps_assessmentId :: oid
  ps_startTime :: int
  ps_endTime :: "int option"
  ps_status :: pstatus
  ps_settings :: settings
  ps_events :: "proctor_event list"
  ps_anomalyScore :: number

record proctor_db =
  sessions :: "proctor_session list"
  events :: "proctor_event list"

definition find_session :: "oid \<Rightarrow> proctor_session list \<Rightarrow> proctor_session option" where
  "find_session i xs = find (\<lambda>x. ps_id x = i) xs"

text \<open>
  \<^verbatim>\<open>session.save()\<close> on a loaded session writes the paths the handler has changed in
  its copy to the stored document with the copy's \<^verbatim>\<open>_id\<close>: \<open>update_session i f\<close>
  applies the change \<open>f\<close> to the first stored document with the id \<open>i\<close>. The handlers'
  changes are a new status and end time (lines 244-245), and an event pushed to
  \<^verbatim>\<open>events\<close> with a new value of \<^verbatim>\<open>anomalyScore\<close> (lines 317 and 333).
\<close>

fun update_session ::
  "oid \<Rightarrow> (proctor_session \<Rightarrow> proctor_session) \<Rightarrow> proctor_session list \<Rightarrow> proctor_session list" where
  "update_session i f [] = []"
| "update_session i f (x # xs) = (if ps_id x = i then f x # xs else x # update_session i f xs)"

text \<open>The enumerations of the event schema; saving an event whose type or severity is
  not listed fails validation, which the handler's \<^verbatim>\<open>catch\<close> turns into a 500.\<close>

definition event_types :: "string list" where
  "event_types = [''tab-switch'', ''full-screen-exit'', ''face-not-detected'',
                  ''multiple-faces'', ''audio-detected'', ''suspicious-activity'']"

definition severities :: "string list" where
  "severities = [''low'', ''medium'', ''high'']"

text \<open>Lines 320-331: the \<^verbatim>\<open>switch\<close> on the severity, with \<open>0\<close> where no case
  matches. The literals \<^verbatim>\<open>0.2\<close>, \<^verbatim>\<open>0.5\<close> and \<^verbatim>\<open>1.0\<close> denote the doubles
  nearest to them.\<close>

definition severityValue :: "string \<Rightarrow> number" where
  "severityValue severity =
     (if severity = ''low'' then to_double (2 / 10)
      else if severity = ''medium'' then to_double (5 / 10)
      else if severity = ''high'' then to_double 1
      else Num 0)"

text \<open>Line 282: a request without a severity gets \<^verbatim>\<open>'medium'\<close>.\<close>

definition body_severity :: "string option \<Rightarrow> string" where
  "body_severity v = (case v of None \<Rightarrow> ''medium'' | Some severity \<Rightarrow> severity)"

section \<open>Proctor service: requests served in steps\<close>

text \<open>
  Every database operation of a handler is awaited, and while a handler waits the
  server runs other handlers. A request is therefore served in steps: a step is one
  database operation together with the code that runs after it up to the next
  operation or the response. Between two steps of a request, steps of other requests
  may run. What a handler keeps between two of its steps is the document it has read
  or built.
\<close>

text \<open>The body of \<^verbatim>\<open>POST /api/proctor/events\<close>.\<close>

record event_body =
  eb_sessionId :: oid
  eb_type :: string
  eb_details :: "json option"
  eb_severity :: "string option"
  eb_snapshot :: "json option"

text \<open>
  The three requests that change the stores:
  \<^item> \<open>StartSession created new_id userId attemptId assessmentId settings\<close>, with the
    clock read that gives the session its start time and the id it is given;
  \<^item> \<open>EndSession now userId sessionId\<close>;
  \<^item> \<open>RecordEvent now new_id userId body\<close>, with the clock read that gives the event
    its timestamp and the id it is given.
\<close>

datatype request =
    StartSession int oid oid oid oid settings
  | EndSession int oid oid
  | RecordEvent int oid oid event_body

text \<open>
  What a handler holds while it waits:
  \<^item> \<open>StartChecked session\<close>: \<^verbatim>\<open>findOne\<close> found no active session, and the new
    session of lines 186-191 is about to be saved (line 193);
  \<^item> \<open>EndLoaded session now\<close>: the session has been read and has passed the checks of
    lines 229-241, and is about to be saved as completed (line 246);
  \<^item> \<open>EventLoaded session event\<close>: the session has been read and has passed the checks
    of lines 289-301, and the event of lines 304-312 is about to be saved (line 314);
  \<^item> \<open>EventStored session event\<close>: the event has been saved, and the session is about to
    be saved with the event pushed and the score raised (lines 317-334).
  The session held is the copy read at the request's first step.
\<close>

datatype pending =
    StartChecked proctor_session
  | EndLoaded proctor_session int
  | EventLoaded proctor_session proctor_event
  | EventStored proctor_session proctor_event

datatype reply =
    SessionStarted oid settings
  | SessionEnded oid
  | EventRecorded oid

text \<open>Lines 175-179: \<^verbatim>\<open>findOne({attemptId, userId, status: 'active'})\<close>.\<close>

definition is_active_for :: "oid \<Rightarrow> oid \<Rightarrow> proctor_session \<Rightarrow> bool" where
  "is_active_for attemptId userId x =
     (ps_attemptId x = attemptId \<and> ps_userId x = userId \<and> ps_status x = SessionActive)"

text \<open>Lines 186-191: the new session, with the defaults of the schema.\<close>

definition new_session :: "int \<Rightarrow> oid \<Rightarrow> oid \<Rightarrow> oid \<Rightarrow> oid \<Rightarrow> settings \<Rightarrow> proctor_session" where
  "new_session created new_id userId attemptId assessmentId stg =
     \<lparr>ps_id = new_id,
      ps_attemptId = attemptId,
      ps_userId = userId,
      ps_assessmentId = assessmentId,
      ps_startTime = created,
      ps_endTime = None,
      ps_status = SessionActive,
      ps_settings = stg,
      ps_events = [],
      ps_anomalyScore = Num 0\<rparr>"

text \<open>Lines 304-312: the event document, with the attempt and the assessment of the
  session it belongs to.\<close>

definition new_event :: "proctor_session \<Rightarrow> int \<Rightarrow> oid \<Rightarrow> oid \<Rightarrow> event_body \<Rightarrow> proctor_event" where
  "new_event session now new_id userId body =
     \<lparr>e_id = new_id,
      e_attemptId = ps_attemptId session,
      e_userId = userId,
      e_assessmentId = ps_assessmentId session,
      e_type = eb_type body,
      e_timestamp = now,
      e_details = eb_details body,
      e_severity = body_severity (eb_severity body),
      e_snapshot = eb_snapshot body\<rparr>"

text \<open>
  The first step of a request: the read (\<^verbatim>\<open>findOne\<close> at line 175, \<^verbatim>\<open>findById\<close> at
  lines 227 and 287) and the checks on what was read. It answers with an error, or
  leaves the handler waiting for its first write.
\<close>

fun begin_request :: "request \<Rightarrow> proctor_db \<Rightarrow> error + pending" where
  "begin_request (StartSession created new_id userId attemptId assessmentId stg) s =
     (case find (is_active_for attemptId userId) (sessions s) of
        Some existingSession \<Rightarrow> Inl SessionAlreadyActive
      | None \<Rightarrow> Inr (StartChecked (new_session created new_id userId attemptId assessmentId stg)))"
| "begin_request (EndSession now userId sessionId) s =
     (case find_session sessionId (sessions s) of
        None \<Rightarrow> Inl NotFound
      | Some session \<Rightarrow>
          if ps_userId session \<noteq> userId then Inl Forbidden
          else if ps_status session \<noteq> SessionActive then Inl NotActive
          else Inr (EndLoaded session now))"
| "begin_request (RecordEvent now new_id userId body) s =
     (case find_session (eb_sessionId body) (sessions s) of
        None \<Rightarrow> Inl NotFound
      | Some session \<Rightarrow>
          if ps_userId session \<noteq> userId then Inl Forbidden
          else if ps_status session \<noteq> SessionActive then Inl NotActive
          else Inr (EventLoaded session (new_event session now new_id userId body)))"

text \<open>
  A later step of a request: the write the handler was waiting for, on the stores as
  they are then. It leaves the handler waiting for its next write (\<open>Inl\<close>), or answers
  (\<open>Inr\<close>). The score written at lines 333-334 is the score of the copy the handler
  read at its first step, plus the weight. The response is sent after the handler has
  also waited for Kafka, which changes no store; it is recorded with the last write.
\<close>

fun continue_request :: "pending \<Rightarrow> proctor_db \<Rightarrow> proctor_db \<times> (pending + error + reply)" where
  "continue_request (StartChecked session) s =
     (s\<lparr>sessions := sessions s @ [session]\<rparr>,
      Inr (Inr (SessionStarted (ps_id session) (ps_settings session))))"
| "continue_request (EndLoaded session now) s =
     (s\<lparr>sessions := update_session (ps_id session)
                        (\<lambda>x. x\<lparr>ps_status := SessionCompleted, ps_endTime := Some now\<rparr>)
                        (sessions s)\<rparr>,
      Inr (Inr (SessionEnded (ps_id session))))"
| "continue_request (EventLoaded session event) s =
     (if e_type event \<notin> set event_types \<or> e_severity event \<notin> set severities
      then (s, Inr (Inl ServerError))
      else (s\<lparr>events := events s @ [event]\<rparr>, Inl (EventStored session event)))"
| "continue_request (EventStored session event) s =
     (s\<lparr>sessions := update_session (ps_id session)
                        (\<lambda>x. x\<lparr>ps_events := ps_events x @ [event],
                                ps_anomalyScore :=
                                  js_add (ps_anomalyScore session)
                                    (severityValue (e_severity event))\<rparr>)
                        (sessions s)\<rparr>,
      Inr (Inr (EventRecorded (e_id event))))"

text \<open>
  The service: the stores, the handlers that wait (by a number that names the request),
  and the responses sent, in their order. \<open>Begin r req\<close> is the first step of the
  request \<open>req\<close>, named \<open>r\<close>; \<open>Continue r\<close> is the next step of the request named
  \<open>r\<close>. A name in use is not begun again, and there is nothing to continue for a name
  that does not wait.
\<close>

record system =
  store :: proctor_db
  inflight :: "nat \<Rightarrow> pending option"
  replies :: "(nat \<times> (error + reply)) list"

datatype action = Begin nat request | Continue nat

fun act :: "action \<Rightarrow> system \<Rightarrow> system" where
  "act (Begin r req) sys =
     (case inflight sys r of
        Some p \<Rightarrow> sys
      | None \<Rightarrow>
          (case begin_request req (store sys) of
             Inl e \<Rightarrow> sys\<lparr>replies := replies sys @ [(r, Inl e)]\<rparr>
           | Inr p \<Rightarrow> sys\<lparr>inflight := (inflight sys)(r := Some p)\<rparr>))"
| "act (Continue r) sys =
     (case inflight sys r of
        None \<Rightarrow> sys
      | Some p \<Rightarrow>
          (case continue_request p (store sys) of
             (s, Inl p') \<Rightarrow> sys\<lparr>store := s, inflight := (inflight sys)(r := Some p')\<rparr>
           | (s, Inr a) \<Rightarrow>
               sys\<lparr>store := s, inflight := (inflight sys)(r := None),
                   replies := replies sys @ [(r, a)]\<rparr>))"

definition run_proctor :: "action list \<Rightarrow> system \<Rightarrow> system" where
  "run_proctor acts sys = foldl (\<lambda>sys' a. act a sys') sys acts"

definition empty_system :: system where
  "empty_system = \<lparr>store = \<lparr>sessions = [], events = []\<rparr>, inflight = (\<lambda>r. None), replies = []\<rparr>"

text \<open>
  A request served alone: all its steps, with no step of another request in between (no
  handler has more than two writes). \<open>serve_all\<close> serves requests one after the other.
\<close>

definition serve :: "nat \<Rightarrow> request \<Rightarrow> action list" where
  "serve r req = [Begin r req, Continue r, Continue r]"

definition serve_all :: "(nat \<times> request) list \<Rightarrow> action list" where
  "serve_all reqs = concat (map (\<lambda>(r, req). serve r req) reqs)"

text \<open>
  A request to record an event in the session \<open>sessionId\<close> passes the schema's
  validation if its type and severity are listed; \<open>event_weight\<close> is the weight such
  a request adds.
\<close>

definition valid_event_request :: "oid \<Rightarrow> event_body \<Rightarrow> bool" where
  "valid_event_request sessionId body =
     (eb_sessionId body = sessionId \<and> eb_type body \<in> set event_types \<and>
      body_severity (eb_severity body) \<in> set severities)"

definition event_weight :: "event_body \<Rightarrow> number" where
  "event_weight body = severityValue (body_severity (eb_severity body))"

text \<open>
  Requests of one user to record events, each with the number that names it, its clock
  read, the id its event is given and its body: \<open>serve_records userId qs\<close> serves them
  one after the other, and \<open>request_event session userId q\<close> is the event that the
  request \<open>q\<close> builds for the session it has read.
\<close>

record event_request =
  er_name :: nat
  er_now :: int
  er_id :: oid
  er_body :: event_body

definition record_request :: "oid \<Rightarrow> event_request \<Rightarrow> nat \<times> request" where
  "record_request userId q = (er_name q, RecordEvent (er_now q) (er_id q) userId (er_body q))"

definition serve_records :: "oid \<Rightarrow> event_request list \<Rightarrow> action list" where
  "serve_records userId qs = serve_all (map (record_request userId) qs)"

definition request_event :: "proctor_session \<Rightarrow> oid \<Rightarrow> event_request \<Rightarrow> proctor_event" where
  "request_event session userId q = new_event session (er_now q) (er_id q) userId (er_body q)"

text \<open>The session that a waiting handler holds, and the property that every score,
  stored or held, is a non-negative double or \<^verbatim>\<open>Infinity\<close>.\<close>

fun held :: "pending \<Rightarrow> proctor_session" where
  "held (StartChecked session) = session"
| "held (EndLoaded session now) = session"
| "held (EventLoaded session event) = session"
| "held (EventStored session event) = session"

definition scores_ok :: "system \<Rightarrow> bool" where
  "scores_ok sys =
     ((\<forall>x \<in> set (sessions (store sys)). score_ok (ps_anomalyScore x)) \<and>
      (\<forall>r p. inflight sys r = Some p \<longrightarrow> score_ok (ps_anomalyScore (held p))))"

text \<open>The score after the weights \<open>ws\<close> have been added, in their order, to the score
  \<open>n\<close>.\<close>

definition accumulate :: "number \<Rightarrow> number list \<Rightarrow> number" where
  "accumulate n ws = foldl js_add n ws"

text \<open>At most one active session for the attempt and user of every stored session.\<close>

definition unique_active :: "proctor_session list \<Rightarrow> bool" where
  "unique_active xs =
     list_all (\<lambda>x. length (filter (is_active_for (ps_attemptId x) (ps_userId x)) xs) \<le> 1) xs"

section \<open>Example data\<close>

definition ex_q1 :: question where
  "ex_q1 = \<lparr>q_id = ''q1'', q_type = SingleChoice,
            q_options = [\<lparr>o_id = ''a'', o_text = ''no'', o_isCorrect = False\<rparr>,
                         \<lparr>o_id = ''b'', o_text = ''yes'', o_isCorrect = True\<rparr>],
            q_points = 10\<rparr>"

definition ex_q2 :: question where
  "ex_q2 = \<lparr>q_id = ''q2'', q_type = MultipleChoice,
            q_options = [\<lparr>o_id = ''a'', o_text = ''x'', o_isCorrect = True\<rparr>,
                         \<lparr>o_id = ''b'', o_text = ''y'', o_isCorrect = True\<rparr>,
                         \<lparr>o_id = ''c'', o_text = ''z'', o_isCorrect = False\<rparr>],
            q_points = 3\<rparr>"

definition ex_db0 :: db where
  "ex_db0 = \<lparr>questions = [ex_q1, ex_q2], assessments = [], attempts = [], cache = []\<rparr>"

text \<open>A published assessment of ten minutes, open from 1000 to 5000, that gives the
  first question 2 points and the second 3.\<close>

definition ex_body :: assessment_body where
  "ex_body = \<lparr>b_title = Some ''Quiz'', b_duration = Some 10, b_passingScore = Some 1,
      b_questions = Some [\<lparr>aq_question = ''q1'', aq_points = Some 2\<rparr>,
                          \<lparr>aq_question = ''q2'', aq_points = Some 3\<rparr>],
      b_randomizeQuestions = None, b_allowedAttempts = None,
      b_startTime = Some 1000, b_endTime = Some 5000, b_status = Some Published\<rparr>"

definition ex_db1 :: db where
  "ex_db1 = snd (create_assessment ''instructor'' ''u0'' ''as1'' ex_body ex_db0)"

definition ex_db2 :: db where
  "ex_db2 = snd (start_attempt (\<lambda>qs. qs) 2000 2000 ''at1'' ''u1'' ''as1'' ex_db1)"

definition ex_settings :: settings where
  "ex_settings = \<lparr>st_webcam = \<lparr>d_required = True, d_enabled = True\<rparr>,
                   st_screenSharing = \<lparr>d_required = False, d_enabled = False\<rparr>,
                   st_audio = \<lparr>d_required = False, d_enabled = False\<rparr>,
                   st_fullScreenRequired = True,
                   st_browserLockdown = False\<rparr>"

text \<open>A published assessment without questions, and the document that creating it
  stores.\<close>

definition ex_empty_body :: assessment_body where
  "ex_empty_body = \<lparr>b_title = Some ''Empty'', b_duration = Some 10, b_passingScore = None,
      b_questions = Some [], b_randomizeQuestions = Some True, b_allowedAttempts = None,
      b_startTime = None, b_endTime = None, b_status = Some Published\<rparr>"

definition ex_empty_assessment :: assessment where
  "ex_empty_assessment =
     \<lparr>as_id = ''as2'', as_title = ''Empty'', as_duration = 10, as_totalPoints = 0,
      as_passingScore = 0, as_questions = [], as_randomizeQuestions = True,
      as_allowedAttempts = 1, as_startTime = None, as_endTime = None,
      as_createdBy = ''u0'', as_status = Published\<rparr>"

text \<open>Requests for the attempt \<open>at1\<close> of the user \<open>u1\<close>: to start a session under a
  given id, and to record an event of a given severity in the session \<open>s1\<close>.\<close>

definition ex_start :: "int \<Rightarrow> oid \<Rightarrow> request" where
  "ex_start created new_id = StartSession created new_id ''u1'' ''at1'' ''as1'' ex_settings"

definition ex_event :: "string \<Rightarrow> event_body" where
  "ex_event severity =
     \<lparr>eb_sessionId = ''s1'', eb_type = ''tab-switch'', eb_details = None,
      eb_severity = Some severity, eb_snapshot = None\<rparr>"

definition ex_record :: "int \<Rightarrow> oid \<Rightarrow> string \<Rightarrow> request" where
  "ex_record now new_id severity = RecordEvent now new_id ''u1'' (ex_event severity)"

definition ex_request :: "nat \<Rightarrow> int \<Rightarrow> oid \<Rightarrow> string \<Rightarrow> event_request" where
  "ex_request r now new_id severity =
     \<lparr>er_name = r, er_now = now, er_id = new_id, er_body = ex_event severity\<rparr>"

text \<open>The service after the session \<open>s1\<close> has been started, served alone.\<close>

definition ex_started :: system where
  "ex_started = run_proctor (serve 0 (ex_start 100 ''s1'')) empty_system"

text \<open>Two requests to start a session for the same attempt and user, the second
  arriving while the first waits for its session to be saved.\<close>

definition ex_two_starts :: "action list" where
  "ex_two_starts =
     [Begin 1 (ex_start 100 ''s1''), Begin 2 (ex_start 101 ''s2''), Continue 1, Continue 2]"

text \<open>Two requests to record an event in the session \<open>s1\<close>, of the severities given,
  the second arriving while the first waits for its event to be saved: both have read
  the session before either writes it.\<close>

definition ex_two_events :: "string \<Rightarrow> string \<Rightarrow> action list" where
  "ex_two_events first second =
     [Begin 1 (ex_record 150 ''e1'' first), Begin 2 (ex_record 151 ''e2'' second),
      Continue 1, Continue 1, Continue 2, Continue 2]"

section \<open>Unfolding the handlers\<close>

lemmas example_defs = ex_db2_def ex_db1_def ex_db0_def ex_body_def ex_q1_def ex_q2_def
  ex_settings_def ex_empty_body_def ex_empty_assessment_def ex_start_def ex_event_def
  ex_record_def ex_request_def ex_started_def ex_two_starts_def ex_two_events_def

lemmas handler_defs = create_assessment_def start_attempt_def submit_answer_def
  finish_attempt_def find_assessment_def find_attempt_def find_question_def
  calc_totalPoints_def points_or_zero_def window_check_def count_attempts_def new_attempt_def
  redis_set_def redis_del_def attempt_key_def timeLimit_def time_out_def grade_def
  single_choice_correct_def multiple_choice_correct_def correctOptionIds_def js_div_def
  js_times_def calc_totalScore_def complete_attempt_def Let_def

lemmas proctor_defs = find_session_def is_active_for_def event_types_def severities_def
  severityValue_def body_severity_def run_proctor_def empty_system_def new_session_def
  new_event_def serve_def serve_all_def event_weight_def valid_event_request_def
  record_request_def serve_records_def request_event_def accumulate_def Let_def

section \<open>Facts about JavaScript numbers\<close>

lemma pow2_powi: "pow2 e = 2 powi e"
  by (simp add: pow2_def power_int_def field_simps)

lemma pow2_pos: "0 < pow2 e"
  by (simp add: pow2_powi)

lemma pow2_add: "pow2 (a + b) = pow2 a * pow2 b"
  by (simp add: pow2_powi power_int_add)

lemma pow2_mono: "a \<le> b \<Longrightarrow> pow2 a \<le> pow2 b"
  by (simp add: pow2_powi power_int_increasing)

lemma pow2_of_nat: "pow2 (int n) = 2 ^ n"
  by (simp add: pow2_def)

lemma pow2_plus_53: "pow2 (e + 53) = pow2 e * 2 ^ 53"
  using pow2_of_nat [of 53] by (simp add: pow2_add)

lemma pow2_plus_52: "pow2 (e + 52) = pow2 e * 2 ^ 52"
  using pow2_of_nat [of 52] by (simp add: pow2_add)

lemma pow2_Suc: "pow2 (k + 1) = 2 * pow2 k"
  using pow2_of_nat [of 1] by (simp add: pow2_add)

lemma round_half_even_ge: "\<lfloor>q\<rfloor> \<le> round_half_even q"
  by (simp add: round_half_even_def Let_def)

lemma round_half_even_le: "round_half_even q \<le> \<lfloor>q\<rfloor> + 1"
  by (simp add: round_half_even_def Let_def)

lemma set_exponents: "set exponents = {- 1074..971}"
  by (simp only: exponents_def set_upto)

lemma exponents_ge: "e \<in> set exponents \<Longrightarrow> - 1074 \<le> e"
  by (simp add: set_exponents)

lemma round_pos_Num:
  assumes "round_pos x = Num r"
  obtains e where "in_binade x e" and "- 1074 \<le> e"
    and "r = of_int (round_half_even (x / pow2 e)) * pow2 e"
proof -
  from assms obtain e where f: "find (in_binade x) exponents = Some e"
    by (auto simp: round_pos_def split: option.splits)
  then have b: "in_binade x e" and m: "e \<in> set exponents"
    by (auto simp: find_Some_iff)
  from assms f have "r = of_int (round_half_even (x / pow2 e)) * pow2 e"
    by (auto simp: round_pos_def Let_def split: if_splits)
  with b exponents_ge [OF m] that show thesis by blast
qed

lemma round_pos_dyadic:
  assumes "0 \<le> x" and "round_pos x = Num r"
  shows "dyadic r" and "0 \<le> r"
proof -
  from assms(2) obtain e where b: "in_binade x e" and e: "- 1074 \<le> e"
    and r: "r = of_int (round_half_even (x / pow2 e)) * pow2 e"
    by (rule round_pos_Num)
  let ?q = "x / pow2 e"
  have q0: "0 \<le> ?q" using assms(1) pow2_pos [of e] by simp
  have "x < pow2 (e + 53)" using b by (simp add: in_binade_def)
  then have "x < pow2 e * 2 ^ 53" by (simp only: pow2_plus_53)
  then have "?q < 2 ^ 53" using pow2_pos [of e] by (simp add: field_simps)
  then have "\<lfloor>?q\<rfloor> < 2 ^ 53" by (simp add: floor_less_iff)
  then have u: "round_half_even ?q \<le> 2 ^ 53"
    using round_half_even_le [of ?q] by linarith
  have "0 \<le> \<lfloor>?q\<rfloor>" using q0 by simp
  then have l: "0 \<le> round_half_even ?q"
    using round_half_even_ge [of ?q] by linarith
  show "dyadic r" using r u l e by (auto simp: dyadic_def)
  show "0 \<le> r" using r l pow2_pos [of e] by simp
qed

lemma round_pos_ge_dyadic:
  assumes "dyadic d" and "d \<le> x" and "round_pos x = Num r"
  shows "d \<le> r"
proof -
  from assms(3) obtain e where b: "in_binade x e" and e: "- 1074 \<le> e"
    and r: "r = of_int (round_half_even (x / pow2 e)) * pow2 e"
    by (rule round_pos_Num)
  from assms(1) obtain m k where d: "d = of_int m * pow2 k" and m0: "0 \<le> m"
    and m1: "m \<le> 2 ^ 53" and k: "- 1074 \<le> k"
    by (auto simp: dyadic_def)
  let ?q = "x / pow2 e"
  have fl: "of_int \<lfloor>?q\<rfloor> * pow2 e \<le> r"
    unfolding r using round_half_even_ge [of ?q] pow2_pos [of e]
    by (simp add: mult_right_mono)
  have "d \<le> of_int \<lfloor>?q\<rfloor> * pow2 e"
  proof (cases "e \<le> k")
    case True
    then obtain n where n: "k = e + int n"
      by (metis zle_iff_zadd)
    have dd: "d = of_int (m * 2 ^ n) * pow2 e"
      by (simp add: d n pow2_add pow2_of_nat)
    have "of_int (m * 2 ^ n) * pow2 e \<le> x" using assms(2) dd by simp
    then have "of_int (m * 2 ^ n) \<le> ?q"
      using pow2_pos [of e] by (simp add: field_simps)
    then have "m * 2 ^ n \<le> \<lfloor>?q\<rfloor>" by (simp add: le_floor_iff)
    then have "(of_int (m * 2 ^ n) :: rat) \<le> of_int \<lfloor>?q\<rfloor>"
      by (simp only: of_int_le_iff)
    then show ?thesis
      unfolding dd using pow2_pos [of e] by (simp add: mult_right_mono)
  next
    case False
    then have lt: "k + 1 \<le> e" and ne: "e \<noteq> - 1074" using k by simp_all
    from b ne have "pow2 (e + 52) \<le> x" by (simp add: in_binade_def)
    then have "pow2 e * 2 ^ 52 \<le> x" by (simp only: pow2_plus_52)
    then have "2 ^ 52 \<le> ?q" using pow2_pos [of e] by (simp add: field_simps)
    then have "(2 ^ 52 :: int) \<le> \<lfloor>?q\<rfloor>" by (simp add: le_floor_iff)
    then have "(2 ^ 52 :: rat) \<le> of_int \<lfloor>?q\<rfloor>"
      by (metis of_int_le_iff of_int_numeral of_int_power)
    then have a: "2 ^ 52 * pow2 e \<le> of_int \<lfloor>?q\<rfloor> * pow2 e"
      using pow2_pos [of e] by (simp add: mult_right_mono)
    have "d \<le> 2 ^ 53 * pow2 k"
    proof -
      have "(of_int m :: rat) \<le> 2 ^ 53" using m1
        by (metis of_int_le_iff of_int_numeral of_int_power)
      then show ?thesis unfolding d using pow2_pos [of k] by (simp add: mult_right_mono)
    qed
    also have "\<dots> = 2 ^ 52 * pow2 (k + 1)"
      by (simp add: pow2_Suc)
    also have "\<dots> \<le> 2 ^ 52 * pow2 e"
      using pow2_mono [OF lt] by simp
    finally show ?thesis using a by simp
  qed
  with fl show ?thesis by simp
qed



lemma in_binade_unique:
  assumes "in_binade x e" and "in_binade x e'" and "- 1074 \<le> e" and "- 1074 \<le> e'"
  shows "e = e'"
proof -
  have n: False if b: "in_binade x a" and b': "in_binade x c" and l: "a < c" and a: "- 1074 \<le> a"
    for a c
  proof -
    from l a have "c \<noteq> - 1074" by simp
    with b' have "pow2 (c + 52) \<le> x" by (simp add: in_binade_def)
    moreover from b have "x < pow2 (a + 53)" by (simp add: in_binade_def)
    moreover from l have "pow2 (a + 53) \<le> pow2 (c + 52)" by (intro pow2_mono) simp
    ultimately show False by simp
  qed
  show ?thesis
  proof (rule ccontr)
    assume "e \<noteq> e'"
    then consider "e < e'" | "e' < e" by linarith
    then show False
      using n [OF assms(1,2) _ assms(3)] n [OF assms(2,1) _ assms(4)] by cases auto
  qed
qed

lemma find_unique:
  assumes "x \<in> set xs" and "P x" and "\<And>y. y \<in> set xs \<Longrightarrow> P y \<Longrightarrow> y = x"
  shows "find P xs = Some x"
proof (cases "find P xs")
  case None
  with assms(1,2) show ?thesis by (simp add: find_None_iff)
next
  case (Some y)
  then have "y \<in> set xs" and "P y"
    by (auto simp: find_Some_iff)
  then have "y = x" by (rule assms(3))
  with Some show ?thesis by simp
qed

lemma find_in_binade:
  assumes "in_binade x e" and "- 1074 \<le> e" and "e \<le> 971"
  shows "find (in_binade x) exponents = Some e"
proof (rule find_unique)
  show "e \<in> set exponents" using assms(2,3) by (simp add: set_exponents)
  show "in_binade x e" by (rule assms(1))
  show "y = e" if "y \<in> set exponents" "in_binade x y" for y
    using in_binade_unique [OF that(2) assms(1) _ assms(2)] that(1)
    by (simp add: set_exponents)
qed

text \<open>The value of \<open>to_double\<close> once the exponent and the rounded significand are
  known.\<close>

lemma to_double_nearest:
  assumes "0 \<le> x" and "- 1074 \<le> e" and "e \<le> 971" and "in_binade x e"
    and "round_half_even (x / pow2 e) = m" and "e < 971 \<or> m < 2 ^ 53"
  shows "to_double x = Num (of_int m * pow2 e)"
proof -
  have f: "find (in_binade x) exponents = Some e"
    using assms(4,2,3) by (rule find_in_binade)
  have ne: "\<not> (e = 971 \<and> m = 2 ^ 53)"
    using assms(6) by auto
  have "round_pos x = Num (of_int m * pow2 e)"
    unfolding round_pos_def f option.case Let_def assms(5) using ne by (simp only: if_False)
  then show ?thesis using assms(1) by (simp add: to_double_def)
qed

lemma round_half_even_near: "\<bar>q - of_int m\<bar> < 1 / 2 \<Longrightarrow> round_half_even q = m"
proof -
  assume a: "\<bar>q - of_int m\<bar> < 1 / 2"
  show ?thesis
  proof (cases "of_int m \<le> q")
    case True
    with a have "\<lfloor>q\<rfloor> = m" by (intro floor_unique) (simp_all add: abs_if split: if_splits)
    with a True show ?thesis by (simp add: round_half_even_def Let_def abs_if split: if_splits)
  next
    case False
    with a have f: "\<lfloor>q\<rfloor> = m - 1" by (intro floor_unique) (simp_all add: abs_if split: if_splits)
    with a False show ?thesis
      by (simp add: round_half_even_def Let_def abs_if split: if_splits)
  qed
qed

lemma round_half_even_tie_up: "q = of_int m - 1 / 2 \<Longrightarrow> even m \<Longrightarrow> round_half_even q = m"
proof -
  assume a: "q = of_int m - 1 / 2" and e: "even m"
  have f: "\<lfloor>q\<rfloor> = m - 1" by (intro floor_unique) (simp_all add: a)
  have d: "q - of_int \<lfloor>q\<rfloor> = 1 / 2" by (simp add: f) (simp add: a)
  show ?thesis unfolding round_half_even_def Let_def d unfolding f using e by simp
qed

lemma round_half_even_tie_down: "q = of_int m + 1 / 2 \<Longrightarrow> even m \<Longrightarrow> round_half_even q = m"
proof -
  assume a: "q = of_int m + 1 / 2" and e: "even m"
  have f: "\<lfloor>q\<rfloor> = m" by (intro floor_unique) (simp_all add: a)
  have d: "q - of_int \<lfloor>q\<rfloor> = 1 / 2" by (simp add: f) (simp add: a)
  show ?thesis unfolding round_half_even_def Let_def d unfolding f using e by simp
qed

lemma to_double_exact:
  assumes "- 1074 \<le> e" and "e \<le> 971" and "0 \<le> m" and "m < 2 ^ 53"
    and "e = - 1074 \<or> 2 ^ 52 \<le> m"
  shows "to_double (of_int m * pow2 e) = Num (of_int m * pow2 e)"
proof (rule to_double_nearest [OF _ assms(1,2)])
  let ?x = "of_int m * pow2 e :: rat"
  show "0 \<le> ?x" using assms(3) pow2_pos [of e] by simp
  have "(of_int m :: rat) < 2 ^ 53" using assms(4)
    by (metis of_int_less_iff of_int_numeral of_int_power)
  then have u: "?x < pow2 (e + 53)"
    using pow2_pos [of e] by (simp add: pow2_plus_53 mult.commute)
  have l: "pow2 (e + 52) \<le> ?x" if "2 ^ 52 \<le> m"
  proof -
    from that have "(2 ^ 52 :: rat) \<le> of_int m"
      by (metis of_int_le_iff of_int_numeral of_int_power)
    then show ?thesis using pow2_pos [of e] by (simp add: pow2_plus_52 mult.commute)
  qed
  show "in_binade ?x e" using u l assms(5) by (auto simp: in_binade_def)
  have "?x / pow2 e = of_int m" using pow2_pos [of e] by simp
  then show "round_half_even (?x / pow2 e) = m" by (simp add: round_half_even_near)
  show "e < 971 \<or> m < 2 ^ 53" using assms(4) by simp
qed


lemma pow2_neg_numeral: "pow2 (- numeral k) = 1 / 2 ^ numeral k"
  by (simp add: pow2_def)

lemma pow2_numeral: "pow2 (numeral k) = 2 ^ numeral k"
  by (simp add: pow2_def)

lemma pow2_small: "pow2 0 = 1" "pow2 1 = 2" "pow2 (- 1) = 1 / 2"
  by (simp_all add: pow2_def)

lemmas pow2_eval = pow2_numeral pow2_neg_numeral pow2_small

lemma to_double_0: "to_double 0 = Num 0"
  using to_double_exact [of "- 1074" 0] by simp

lemma to_double_1: "to_double 1 = Num 1"
  using to_double_exact [of "- 52" "2 ^ 52"] by (simp add: pow2_neg_numeral)

lemma to_double_2: "to_double 2 = Num 2"
  using to_double_exact [of "- 51" "2 ^ 52"] by (simp add: pow2_neg_numeral)

lemma to_double_half: "to_double (1 / 2) = Num (1 / 2)"
  using to_double_exact [of "- 53" "2 ^ 52"] by (simp add: pow2_neg_numeral)

lemma to_double_fifth: "to_double (1 / 5) = Num (3602879701896397 / 18014398509481984)"
  using to_double_nearest [of "1 / 5" "- 55" 7205759403792794]
  by (simp add: in_binade_def pow2_neg_numeral round_half_even_near)


lemma to_double_200: "to_double 200 = Num 200"
  using to_double_exact [of "- 45" 7036874417766400] by (simp add: pow2_eval)

lemma to_double_600: "to_double 600 = Num 600"
  using to_double_exact [of "- 43" 5277655813324800] by (simp add: pow2_eval)

lemma to_double_698: "to_double 698 = Num 698"
  using to_double_exact [of "- 43" 6139672929501184] by (simp add: pow2_eval)

lemma to_double_5_2: "to_double (5 / 2) = Num (5 / 2)"
  using to_double_exact [of "- 51" 5629499534213120] by (simp add: pow2_eval)

lemmas double_values = to_double_0 to_double_1 to_double_2 to_double_half to_double_fifth
  to_double_200 to_double_600 to_double_698 to_double_5_2

text \<open>The three severity weights.\<close>

lemma severityValue_values:
  "severityValue ''low'' = Num (3602879701896397 / 18014398509481984)"
  "severityValue ''medium'' = Num (1 / 2)"
  "severityValue ''high'' = Num 1"
  by (simp_all add: severityValue_def double_values)

lemma round_pos_cases: "round_pos x = PosInfinity \<or> (\<exists>r. round_pos x = Num r)"
  by (simp add: round_pos_def Let_def split: option.splits)

text \<open>Adding a non-negative double to a score gives a score that is not smaller.\<close>

lemma js_add_score:
  assumes "score_ok n" and "0 \<le> b"
  shows "js_le n (js_add n (Num b))" and "score_ok (js_add n (Num b))"
proof -
  have "js_le n (js_add n (Num b)) \<and> score_ok (js_add n (Num b))"
  proof (cases n)
    case (Num a)
    with assms(1) have a: "0 \<le> a" and d: "dyadic a" by (simp_all add: score_ok_def)
    have s: "js_add n (Num b) = round_pos (a + b)"
      using Num a assms(2) by (simp add: to_double_def)
    from round_pos_cases [of "a + b"] show ?thesis
    proof
      assume "round_pos (a + b) = PosInfinity"
      then show ?thesis using s Num by (simp add: score_ok_def)
    next
      assume "\<exists>r. round_pos (a + b) = Num r"
      then obtain r where r: "round_pos (a + b) = Num r" ..
      have "a \<le> r" using d _ r by (rule round_pos_ge_dyadic) (simp add: assms(2))
      moreover have "dyadic r" "0 \<le> r"
        using round_pos_dyadic [OF _ r] a assms(2) by simp_all
      ultimately show ?thesis using s r Num by (simp add: score_ok_def)
    qed
  next
    case PosInfinity
    then show ?thesis by (simp add: score_ok_def)
  next
    case NaN
    with assms(1) show ?thesis by (simp add: score_ok_def)
  next
    case NegInfinity
    with assms(1) show ?thesis by (simp add: score_ok_def)
  qed
  then show "js_le n (js_add n (Num b))" and "score_ok (js_add n (Num b))" by simp_all
qed

lemma severityValue_nonneg: "\<exists>b. severityValue v = Num b \<and> 0 \<le> b"
proof -
  have "severityValue v \<in> {Num (3602879701896397 / 18014398509481984), Num (1 / 2), Num 1, Num 0}"
    by (simp add: severityValue_def double_values)
  then consider "severityValue v = Num (3602879701896397 / 18014398509481984)"
    | "severityValue v = Num (1 / 2)" | "severityValue v = Num 1" | "severityValue v = Num 0"
    by blast
  then show ?thesis
  proof cases
    case 1
    then show ?thesis by (intro exI [of _ "3602879701896397 / 18014398509481984"]) simp
  next
    case 2
    then show ?thesis by (intro exI [of _ "1 / 2"]) simp
  next
    case 3
    then show ?thesis by (intro exI [of _ 1]) simp
  next
    case 4
    then show ?thesis by (intro exI [of _ 0]) simp
  qed
qed

lemma js_add_severity:
  assumes "score_ok n"
  shows "js_le n (js_add n (severityValue v))" and "score_ok (js_add n (severityValue v))"
proof -
  obtain b where b: "severityValue v = Num b" "0 \<le> b"
    using severityValue_nonneg by blast
  show "js_le n (js_add n (severityValue v))" and "score_ok (js_add n (severityValue v))"
    using js_add_score [OF assms b(2)] by (simp_all add: b(1))
qed

lemma foldl_js_add_score_ok:
  "score_ok n \<Longrightarrow> score_ok (foldl js_add n (map severityValue vs))"
  by (induction vs arbitrary: n) (simp_all add: js_add_severity)

section \<open>Facts about the stores\<close>

lemma find_assessment_id: "find_assessment i xs = Some a \<Longrightarrow> as_id a = i"
  by (auto simp: find_assessment_def find_Some_iff)

lemma find_attempt_id: "find_attempt i xs = Some a \<Longrightarrow> at_id a = i"
  by (auto simp: find_attempt_def find_Some_iff)

lemma find_save_attempt:
  "find_attempt i xs = Some att \<Longrightarrow> at_id att' = i \<Longrightarrow>
   find_attempt i (save_attempt att' xs) = Some att'"
  by (induction xs) (auto simp: find_attempt_def split: if_splits)

lemma foldl_plus_sum_list:
  "foldl (\<lambda>total x. total + f x) k xs = k + sum_list (map f xs)" for k :: int
  by (induction xs arbitrary: k) simp_all

lemma calc_totalScore_sum: "calc_totalScore xs = sum_list (map a_points xs)"
  by (simp add: calc_totalScore_def foldl_plus_sum_list)

lemma count_attempts_status:
  "count_attempts aid uid (map (\<lambda>x. x\<lparr>at_status := f x\<rparr>) xs) = count_attempts aid uid xs"
  by (induction xs) (simp_all add: count_attempts_def)

lemma find_assessment_append:
  "find_assessment i xs = None \<Longrightarrow> as_id a = i \<Longrightarrow> find_assessment i (xs @ [a]) = Some a"
  by (induction xs) (auto simp: find_assessment_def split: if_splits)

lemma find_attempt_append:
  "find_attempt i xs = None \<Longrightarrow> at_id a = i \<Longrightarrow> find_attempt i (xs @ [a]) = Some a"
  by (induction xs) (auto simp: find_attempt_def split: if_splits)

lemma redis_del_removes: "k \<notin> fst ` set (redis_del k c)"
  by (auto simp: redis_del_def)

lemma finish_attempt_effect:
  assumes "find_attempt attemptId (attempts s) = Some att"
    and "at_user att = userId"
    and "at_status att = InProgress"
  shows "snd (finish_attempt now userId attemptId s) =
           s\<lparr>attempts := save_attempt (complete_attempt att now) (attempts s),
             cache := redis_del (attempt_key attemptId) (cache s)\<rparr>"
    and "find_attempt attemptId (attempts (snd (finish_attempt now userId attemptId s))) =
           Some (complete_attempt att now)"
proof -
  have i: "at_id (complete_attempt att now) = attemptId"
    using find_attempt_id [OF assms(1)] by (simp add: complete_attempt_def)
  show e: "snd (finish_attempt now userId attemptId s) =
           s\<lparr>attempts := save_attempt (complete_attempt att now) (attempts s),
             cache := redis_del (attempt_key attemptId) (cache s)\<rparr>"
    using assms i by (simp add: finish_attempt_def Let_def split: option.splits)
  show "find_attempt attemptId (attempts (snd (finish_attempt now userId attemptId s))) =
           Some (complete_attempt att now)"
    using find_save_attempt [OF assms(1) i] by (simp add: e)
qed

lemma finish_attempt_result:
  assumes "find_attempt attemptId (attempts s) = Some att"
    and "at_user att = userId"
    and "at_status att = InProgress"
    and "find_assessment (at_assessment att) (assessments s) = Some a"
  shows "fst (finish_attempt now userId attemptId s) =
           Inr \<lparr>r_totalScore = calc_totalScore (at_answers att),
                r_maxPossibleScore = at_maxPossibleScore att,
                r_percentage =
                  js_times (js_div (calc_totalScore (at_answers att)) (at_maxPossibleScore att)) 100,
                r_passed = (as_passingScore a \<le> calc_totalScore (at_answers att)),
                r_completionTime = js_div (now - at_startTime att) 1000\<rparr>"
  using assms by (simp add: finish_attempt_def Let_def complete_attempt_def)

lemma filter_save_attempt:
  "find_attempt i xs = Some att \<Longrightarrow> at_id att' = i \<Longrightarrow> \<not> P att \<Longrightarrow> \<not> P att' \<Longrightarrow>
   filter P (save_attempt att' xs) = filter P xs"
  by (induction xs) (auto simp: find_attempt_def split: if_splits)

lemma finish_attempt_timed_out:
  "filter (\<lambda>x. at_status x = TimedOut) (attempts (snd (finish_attempt now userId attemptId s))) =
   filter (\<lambda>x. at_status x = TimedOut) (attempts s)"
proof (cases "find_attempt attemptId (attempts s)")
  case None
  then show ?thesis by (simp add: finish_attempt_def)
next
  case (Some att)
  show ?thesis
  proof (cases "at_user att = userId \<and> at_status att = InProgress")
    case False
    then show ?thesis using Some by (auto simp: finish_attempt_def)
  next
    case True
    then have u: "at_user att = userId" and p: "at_status att = InProgress" by simp_all
    have i: "at_id (complete_attempt att now) = attemptId"
      using find_attempt_id [OF Some] by (simp add: complete_attempt_def)
    have "filter (\<lambda>x. at_status x = TimedOut) (save_attempt (complete_attempt att now) (attempts s)) =
        filter (\<lambda>x. at_status x = TimedOut) (attempts s)"
      using Some i by (rule filter_save_attempt) (simp_all add: p complete_attempt_def)
    then show ?thesis
      unfolding finish_attempt_effect(1) [OF Some u p] by simp
  qed
qed

lemma create_assessment_totalPoints:
  assumes "create_assessment role userId aid body s = (Inr a, s')"
  shows "as_totalPoints a = calc_totalPoints (b_questions body)"
    and "as_questions a = (case b_questions body of None \<Rightarrow> [] | Some qs \<Rightarrow> qs)"
    and "as_id a = aid"
    and "s' = s\<lparr>assessments := assessments s @ [a]\<rparr>"
  using assms
  by (auto simp: create_assessment_def Let_def split: if_splits option.splits)

lemma start_attempt_success:
  assumes "find_assessment aid (assessments s) = Some a"
    and "as_status a = Published"
    and "window_check a now = None"
    and "count_attempts aid userId (attempts s) < as_allowedAttempts a"
    and "0 < as_duration a"
  shows "snd (start_attempt shuffle now created new_id userId aid s) =
           s\<lparr>attempts := attempts s @
                 [new_attempt new_id aid userId created
                    (if as_randomizeQuestions a then shuffle (as_questions a) else as_questions a)
                    (as_totalPoints a)],
             cache := redis_set (attempt_key new_id)
                 \<lparr>c_assessmentId = aid, c_userId = userId, c_startTime = created,
                  c_ttl = as_duration a * 60\<rparr> (cache s)\<rparr>"
    and "fst (start_attempt shuffle now created new_id userId aid s) =
           Inr \<lparr>sr_attemptId = new_id,
                sr_questions = map (\<lambda>q. (aq_question q, aq_points q))
                  (if as_randomizeQuestions a then shuffle (as_questions a) else as_questions a),
                sr_duration = as_duration a,
                sr_startTime = created\<rparr>"
  using assms find_assessment_id [OF assms(1)]
  by (simp_all add: start_attempt_def Let_def new_attempt_def)

lemma js_percentage_zero_max:
  "js_times (js_div x 0) 100 =
     (if x = 0 then NaN else if x > 0 then PosInfinity else NegInfinity)"
  by (simp add: js_div_def js_times_def)

lemma ex_db1_assessment:
  "find_assessment ''as1'' (assessments ex_db1) =
     Some \<lparr>as_id = ''as1'', as_title = ''Quiz'', as_duration = 10, as_totalPoints = 5,
           as_passingScore = 1,
           as_questions = [\<lparr>aq_question = ''q1'', aq_points = Some 2\<rparr>,
                           \<lparr>aq_question = ''q2'', aq_points = Some 3\<rparr>],
           as_randomizeQuestions = False, as_allowedAttempts = 1,
           as_startTime = Some 1000, as_endTime = Some 5000,
           as_createdBy = ''u0'', as_status = Published\<rparr>"
  by (simp add: example_defs handler_defs)

lemma ex_db2_assessment:
  "find_assessment ''as1'' (assessments ex_db2) =
     Some \<lparr>as_id = ''as1'', as_title = ''Quiz'', as_duration = 10, as_totalPoints = 5,
           as_passingScore = 1,
           as_questions = [\<lparr>aq_question = ''q1'', aq_points = Some 2\<rparr>,
                           \<lparr>aq_question = ''q2'', aq_points = Some 3\<rparr>],
           as_randomizeQuestions = False, as_allowedAttempts = 1,
           as_startTime = Some 1000, as_endTime = Some 5000,
           as_createdBy = ''u0'', as_status = Published\<rparr>"
  by (simp add: example_defs handler_defs)

lemma ex_db2_attempt:
  "find_attempt ''at1'' (attempts ex_db2) =
     Some \<lparr>at_id = ''at1'', at_assessment = ''as1'', at_user = ''u1'', at_startTime = 2000,
           at_endTime = None, at_completionTime = None,
           at_answers = [\<lparr>a_question = ''q1'', a_answer = None, a_isCorrect = None,
                           a_points = 0, a_timeSpent = None\<rparr>,
                         \<lparr>a_question = ''q2'', a_answer = None, a_isCorrect = None,
                           a_points = 0, a_timeSpent = None\<rparr>],
           at_totalScore = 0, at_maxPossibleScore = 5, at_status = InProgress\<rparr>"
  by (simp add: example_defs handler_defs)

section \<open>The total score and the maximum possible score\<close>

text \<open>
  Claim C1: after FinishAttempt, \<open>totalScore \<le> maxPossibleScore\<close>, where
  \<open>maxPossibleScore\<close> is the snapshot of \<open>assessment.totalPoints\<close> taken when the
  attempt was created.

  The handlers do not keep this. \<open>totalPoints\<close> adds up the points the assessment gives
  its questions (line 484), while a correct answer is awarded the points of the question
  document (lines 744 and 751). In the example the assessment gives \<open>q1\<close> 2 points and
  \<open>q2\<close> 3, so the attempt's maximum is 5; the question \<open>q1\<close> itself carries 10 points, and
  one correct answer to it finishes the attempt with a total score of 10.
\<close>

theorem total_score_exceeds_max:
  "fst (finish_attempt 4000 ''u1'' ''at1''
          (snd (submit_answer 3000 ''u1'' ''at1'' ''q1'' (JStr ''b'') ex_db2))) =
   Inr \<lparr>r_totalScore = 10, r_maxPossibleScore = 5, r_percentage = Num 200, r_passed = True,
        r_completionTime = Num 2\<rparr>"
  by (simp add: example_defs handler_defs double_values)

section \<open>Grading a multiple-choice answer\<close>

lemma grade_question_unchanged: "a_question (grade q answer slot) = a_question slot"
  by (simp add: grade_def Let_def)

text \<open>On a submitted list without repetitions, and a question whose correct option ids
  are distinct, the comparison of lines 738-741 is equality of the two sets.\<close>

lemma multiple_choice_correct_distinct:
  assumes "distinct ids" and "distinct (correctOptionIds q)"
  shows "multiple_choice_correct q (JArr (map JStr ids)) \<longleftrightarrow> set ids = set (correctOptionIds q)"
proof -
  let ?c = "correctOptionIds q"
  have mem: "list_all (\<lambda>i. i \<in> set (map JStr ?c)) (map JStr ids) \<longleftrightarrow> set ids \<subseteq> set ?c"
    by (auto simp: list_all_iff)
  show ?thesis
  proof
    assume "multiple_choice_correct q (JArr (map JStr ids))"
    then have len: "length ids = length ?c" and sub: "set ids \<subseteq> set ?c"
      using mem by (auto simp: multiple_choice_correct_def)
    from len assms have "card (set ids) = card (set ?c)"
      by (simp add: distinct_card)
    with sub show "set ids = set ?c"
      by (simp add: card_subset_eq)
  next
    assume eq: "set ids = set ?c"
    then have "card (set ids) = card (set ?c)" by simp
    with assms have "length ids = length ?c" by (simp add: distinct_card)
    with eq mem show "multiple_choice_correct q (JArr (map JStr ids))"
      by (simp add: multiple_choice_correct_def)
  qed
qed

text \<open>
  Claim C2: a multiple-choice answer is graded correct if and only if the submitted list
  of option ids, read as a set, equals the set of the option ids flagged correct; a list
  whose set is a strict subset of the correct set grades false.

  The comparison of lines 738-741 counts the submitted list's length, not its distinct
  elements. The question \<open>q2\<close> has the correct options \<open>a\<close> and \<open>b\<close>; the submitted
  list \<open>[a, a]\<close> has length 2 and only correct elements, so it is graded correct and
  awarded the question's 3 points, although its set \<open>{a}\<close> is a strict subset of
  \<open>{a, b}\<close>.
\<close>

theorem duplicate_subset_graded_correct:
  "correctOptionIds ex_q2 = [''a'', ''b''] \<and>
   multiple_choice_correct ex_q2 (JArr [JStr ''a'', JStr ''a'']) \<and>
   map_option at_answers
     (find_attempt ''at1'' (attempts
        (snd (submit_answer 3000 ''u1'' ''at1'' ''q2'' (JArr [JStr ''a'', JStr ''a'']) ex_db2)))) =
   Some [\<lparr>a_question = ''q1'', a_answer = None, a_isCorrect = None, a_points = 0,
          a_timeSpent = None\<rparr>,
         \<lparr>a_question = ''q2'', a_answer = Some (JArr [JStr ''a'', JStr ''a'']),
          a_isCorrect = Some True, a_points = 3, a_timeSpent = Some 1\<rparr>]"
  by (simp add: example_defs handler_defs)

section \<open>SubmitAnswer after the time limit\<close>

text \<open>
  Claim C3: for an in-progress attempt whose elapsed time exceeds the assessment's
  duration, SubmitAnswer (by the attempt's user) fails with TimeExpired and leaves the
  attempt timed out, with \<open>endTime = startTime + duration\<close> (the duration's minutes in
  milliseconds) and a completion time computed from that boundary: the duration's
  milliseconds divided by 1000. Any later FinishAttempt on that attempt fails with
  AlreadyFinalized and changes nothing.
\<close>

theorem submit_after_time_limit:
  assumes "find_attempt attemptId (attempts s) = Some att"
    and "at_user att = userId"
    and "at_status att = InProgress"
    and "find_assessment (at_assessment att) (assessments s) = Some a"
    and "at_startTime att + as_duration a * 60000 < now"
  shows "fst (submit_answer now userId attemptId questionId answer s) = Inl TimeExpired \<and>
         find_attempt attemptId
             (attempts (snd (submit_answer now userId attemptId questionId answer s))) =
           Some (att\<lparr>at_status := TimedOut,
                     at_endTime := Some (at_startTime att + as_duration a * 60000),
                     at_completionTime := Some (js_div (as_duration a * 60000) 1000)\<rparr>) \<and>
         finish_attempt now' userId attemptId
             (snd (submit_answer now userId attemptId questionId answer s)) =
           (Inl AlreadyFinalized, snd (submit_answer now userId attemptId questionId answer s))"
proof -
  let ?t = "time_out att a"
  let ?s' = "s\<lparr>attempts := save_attempt ?t (attempts s)\<rparr>"
  have r: "submit_answer now userId attemptId questionId answer s = (Inl TimeExpired, ?s')"
    using assms by (simp add: submit_answer_def timeLimit_def)
  have i: "at_id ?t = attemptId"
    using find_attempt_id [OF assms(1)] by (simp add: time_out_def)
  have f: "find_attempt attemptId (attempts ?s') = Some ?t"
    using find_save_attempt [OF assms(1) i] by simp
  have t: "?t = att\<lparr>at_status := TimedOut,
                     at_endTime := Some (at_startTime att + as_duration a * 60000),
                     at_completionTime := Some (js_div (as_duration a * 60000) 1000)\<rparr>"
    by (simp add: time_out_def timeLimit_def)
  have fin: "finish_attempt now' userId attemptId ?s' = (Inl AlreadyFinalized, ?s')"
    using f assms(2) by (simp add: finish_attempt_def time_out_def)
  show ?thesis using r f t fin by simp
qed

theorem submit_after_time_limit_witness:
  "fst (submit_answer 700000 ''u1'' ''at1'' ''q1'' (JStr ''b'') ex_db2) = Inl TimeExpired \<and>
   map_option (\<lambda>x. (at_status x, at_endTime x, at_completionTime x))
     (find_attempt ''at1''
        (attempts (snd (submit_answer 700000 ''u1'' ''at1'' ''q1'' (JStr ''b'') ex_db2)))) =
     Some (TimedOut, Some 602000, Some (Num 600)) \<and>
   fst (finish_attempt 700001 ''u1'' ''at1''
          (snd (submit_answer 700000 ''u1'' ''at1'' ''q1'' (JStr ''b'') ex_db2))) =
     Inl AlreadyFinalized"
  using submit_after_time_limit [OF ex_db2_attempt _ _ _ _,
      of "''u1''" _ 700000 "''q1''" "JStr ''b''" 700001, simplified, OF ex_db2_assessment]
  by (simp add: js_div_def double_values)

section \<open>The schedule check of StartAttempt\<close>

text \<open>
  Claim C5 says that, for a published assessment with both \<open>startTime\<close> and \<open>endTime\<close>
  set, StartAttempt passes the schedule check exactly when
  \<open>startTime \<le> now < endTime\<close>, so that a start at \<open>now = endTime\<close> fails. Lines 615
  and 619 compare strictly: the example assessment ends at 5000, and a start at 5000
  is accepted.
\<close>

theorem start_attempt_at_end_time_accepted:
  "map_option as_status (find_assessment ''as1'' (assessments ex_db1)) = Some Published \<and>
   map_option as_startTime (find_assessment ''as1'' (assessments ex_db1)) = Some (Some 1000) \<and>
   map_option as_endTime (find_assessment ''as1'' (assessments ex_db1)) = Some (Some 5000) \<and>
   fst (start_attempt id 5000 5000 ''at1'' ''u1'' ''as1'' ex_db1) =
     Inr \<lparr>sr_attemptId = ''at1'', sr_questions = [(''q1'', Some 2), (''q2'', Some 3)],
          sr_duration = 10, sr_startTime = 5000\<rparr>"
  by (simp add: example_defs handler_defs)

text \<open>
  Claim C5 as the code has it: for a published assessment with both \<open>startTime\<close> and
  \<open>endTime\<close> set, StartAttempt passes the schedule check if and only if
  \<open>startTime \<le> now \<le> endTime\<close>. It answers that the assessment has not started yet
  exactly when \<open>now < startTime\<close>, and that it has already ended exactly when
  \<open>endTime < now\<close> (and \<open>startTime \<le> now\<close>); a start at \<open>now = endTime\<close> passes the
  check.
\<close>

theorem start_attempt_window_closed:
  assumes "find_assessment aid (assessments s) = Some a"
    and "as_status a = Published"
    and "as_startTime a = Some st"
    and "as_endTime a = Some en"
  shows "(fst (start_attempt shuffle now created new_id userId aid s) = Inl NotStartedYet
            \<longleftrightarrow> now < st) \<and>
         (fst (start_attempt shuffle now created new_id userId aid s) = Inl AlreadyEnded
            \<longleftrightarrow> st \<le> now \<and> en < now) \<and>
         (window_check a now = None \<longleftrightarrow> st \<le> now \<and> now \<le> en) \<and>
         (st \<le> en \<longrightarrow> window_check a en = None)"
  using assms by (auto simp: start_attempt_def window_check_def Let_def)

theorem start_attempt_window_closed_witness:
  "fst (start_attempt (\<lambda>qs. qs) 5000 5000 ''at1'' ''u1'' ''as1'' ex_db1) \<noteq> Inl AlreadyEnded \<and>
   fst (start_attempt (\<lambda>qs. qs) 5001 5001 ''at1'' ''u1'' ''as1'' ex_db1) = Inl AlreadyEnded \<and>
   fst (start_attempt (\<lambda>qs. qs) 999 999 ''at1'' ''u1'' ''as1'' ex_db1) = Inl NotStartedYet"
proof -
  note f = ex_db1_assessment
  have p: "as_status (the (find_assessment ''as1'' (assessments ex_db1))) = Published"
    "as_startTime (the (find_assessment ''as1'' (assessments ex_db1))) = Some 1000"
    "as_endTime (the (find_assessment ''as1'' (assessments ex_db1))) = Some 5000"
    by (simp_all add: f)
  show ?thesis
    using start_attempt_window_closed [OF f p [unfolded f option.sel],
        of "\<lambda>qs. qs" 5000 5000 "''at1''" "''u1''"]
      start_attempt_window_closed [OF f p [unfolded f option.sel],
        of "\<lambda>qs. qs" 5001 5001 "''at1''" "''u1''"]
      start_attempt_window_closed [OF f p [unfolded f option.sel],
        of "\<lambda>qs. qs" 999 999 "''at1''" "''u1''"]
    by simp
qed

section \<open>The attempt limit of StartAttempt\<close>

text \<open>
  Claim C10: the attempt-limit check counts the user's attempts on the assessment
  whatever their status. If that number, in-progress attempts included, is at least
  \<open>allowedAttempts\<close>, StartAttempt (on a published assessment, inside its schedule)
  fails with the attempt-limit error and changes nothing; and the count, hence the
  refusal, is the same after any change of the attempts' statuses.
\<close>

theorem attempt_limit_counts_every_status:
  assumes "find_assessment aid (assessments s) = Some a"
    and "as_status a = Published"
    and "window_check a now = None"
    and "as_allowedAttempts a \<le>
           int (length (filter (\<lambda>x. at_assessment x = aid \<and> at_user x = userId) (attempts s)))"
  shows "start_attempt shuffle now created new_id userId aid s = (Inl AttemptLimitExceeded, s) \<and>
         count_attempts aid userId (map (\<lambda>x. x\<lparr>at_status := f x\<rparr>) (attempts s)) =
           count_attempts aid userId (attempts s) \<and>
         start_attempt shuffle now created new_id userId aid
             (s\<lparr>attempts := map (\<lambda>x. x\<lparr>at_status := f x\<rparr>) (attempts s)\<rparr>) =
           (Inl AttemptLimitExceeded,
            s\<lparr>attempts := map (\<lambda>x. x\<lparr>at_status := f x\<rparr>) (attempts s)\<rparr>)"
proof -
  have i: "as_id a = aid" using assms(1) by (rule find_assessment_id)
  have c: "as_allowedAttempts a \<le> count_attempts aid userId (attempts s)"
    using assms(4) by (simp add: count_attempts_def)
  show ?thesis
    using assms(1-3) i c by (simp add: start_attempt_def count_attempts_status)
qed

theorem attempt_limit_counts_every_status_witness:
  "start_attempt (\<lambda>qs. qs) 2500 2500 ''at2'' ''u1'' ''as1'' ex_db2 =
     (Inl AttemptLimitExceeded, ex_db2) \<and>
   start_attempt (\<lambda>qs. qs) 2500 2500 ''at2'' ''u1'' ''as1''
       (ex_db2\<lparr>attempts := map (\<lambda>x. x\<lparr>at_status := Abandoned\<rparr>) (attempts ex_db2)\<rparr>) =
     (Inl AttemptLimitExceeded,
      ex_db2\<lparr>attempts := map (\<lambda>x. x\<lparr>at_status := Abandoned\<rparr>) (attempts ex_db2)\<rparr>)"
proof -
  have w: "window_check (the (find_assessment ''as1'' (assessments ex_db2))) 2500 = None"
    by (simp add: ex_db2_assessment window_check_def)
  have p: "as_status (the (find_assessment ''as1'' (assessments ex_db2))) = Published"
    by (simp add: ex_db2_assessment)
  have c: "as_allowedAttempts (the (find_assessment ''as1'' (assessments ex_db2))) \<le>
      int (length (filter (\<lambda>x. at_assessment x = ''as1'' \<and> at_user x = ''u1'') (attempts ex_db2)))"
    by (simp add: example_defs handler_defs)
  show ?thesis
    using attempt_limit_counts_every_status [OF ex_db2_assessment
        p [unfolded ex_db2_assessment option.sel] w [unfolded ex_db2_assessment option.sel]
        c [unfolded ex_db2_assessment option.sel],
        of "\<lambda>qs. qs" 2500 "''at2''" "\<lambda>x. Abandoned"]
    by simp
qed

section \<open>What FinishAttempt does\<close>

text \<open>
  Claim C6: for an in-progress attempt owned by the calling user, FinishAttempt sets the
  status to completed and \<open>endTime\<close> to the current time, computes
  \<open>completionTime = endTime - startTime\<close> in seconds, sets \<open>totalScore\<close> to the sum of
  the points of all answer slots, removes the attempt's record from the session cache,
  and reports \<open>passed = (totalScore \<ge> assessment.passingScore)\<close>, a comparison of
  points. (The response needs the attempt's assessment to exist.)
\<close>

theorem finish_attempt_completes:
  assumes "find_attempt attemptId (attempts s) = Some att"
    and "at_user att = userId"
    and "at_status att = InProgress"
    and "find_assessment (at_assessment att) (assessments s) = Some a"
  shows "find_attempt attemptId (attempts (snd (finish_attempt now userId attemptId s))) =
           Some (att\<lparr>at_status := Completed,
                     at_endTime := Some now,
                     at_completionTime := Some (js_div (now - at_startTime att) 1000),
                     at_totalScore := sum_list (map a_points (at_answers att))\<rparr>) \<and>
         attempt_key attemptId \<notin> fst ` set (cache (snd (finish_attempt now userId attemptId s))) \<and>
         fst (finish_attempt now userId attemptId s) =
           Inr \<lparr>r_totalScore = sum_list (map a_points (at_answers att)),
                r_maxPossibleScore = at_maxPossibleScore att,
                r_percentage =
                  js_times (js_div (sum_list (map a_points (at_answers att)))
                                   (at_maxPossibleScore att)) 100,
                r_passed = (sum_list (map a_points (at_answers att)) \<ge> as_passingScore a),
                r_completionTime = js_div (now - at_startTime att) 1000\<rparr>"
  using finish_attempt_effect [OF assms(1-3), of now] finish_attempt_result [OF assms, of now]
  by (simp add: complete_attempt_def calc_totalScore_sum redis_del_removes)

theorem finish_attempt_completes_witness:
  "map_option (\<lambda>x. (at_status x, at_endTime x, at_completionTime x, at_totalScore x))
     (find_attempt ''at1'' (attempts (snd (finish_attempt 4500 ''u1'' ''at1'' ex_db2)))) =
     Some (Completed, Some 4500, Some (Num (5 / 2)), 0) \<and>
   ''attempt_at1'' \<in> fst ` set (cache ex_db2) \<and>
   ''attempt_at1'' \<notin> fst ` set (cache (snd (finish_attempt 4500 ''u1'' ''at1'' ex_db2))) \<and>
   fst (finish_attempt 4500 ''u1'' ''at1'' ex_db2) =
     Inr \<lparr>r_totalScore = 0, r_maxPossibleScore = 5, r_percentage = Num 0, r_passed = False,
          r_completionTime = Num (5 / 2)\<rparr>"
proof -
  have c: "''attempt_at1'' \<in> fst ` set (cache ex_db2)"
    by (simp add: example_defs handler_defs)
  have u: "at_user (the (find_attempt ''at1'' (attempts ex_db2))) = ''u1''"
    "at_status (the (find_attempt ''at1'' (attempts ex_db2))) = InProgress"
    by (simp_all add: ex_db2_attempt)
  have a: "find_assessment (at_assessment (the (find_attempt ''at1'' (attempts ex_db2))))
      (assessments ex_db2) = Some (the (find_assessment ''as1'' (assessments ex_db2)))"
    by (simp add: ex_db2_attempt ex_db2_assessment)
  show ?thesis
    using finish_attempt_completes [OF ex_db2_attempt u [unfolded ex_db2_attempt option.sel]
        a [unfolded ex_db2_attempt option.sel], of 4500] c
    by (simp add: ex_db2_assessment js_div_def js_times_def attempt_key_def double_values)
qed

section \<open>FinishAttempt after the time limit\<close>

text \<open>
  Claim C4 says that FinishAttempt on an in-progress attempt with
  \<open>now > startTime + duration\<close> triggers the timeout transition: status timed-out and
  \<open>endTime = startTime + duration\<close>. The handler of \<^verbatim>\<open>POST /api/attempts/:id/submit\<close>
  reads no clock but the one it stores: the example attempt started at 2000 with a limit
  of ten minutes (602000), and a finish at 700000 completes it with that end time.
\<close>

theorem late_finish_completes:
  "map_option at_startTime (find_attempt ''at1'' (attempts ex_db2)) = Some 2000 \<and>
   map_option as_duration (find_assessment ''as1'' (assessments ex_db2)) = Some 10 \<and>
   map_option at_status
     (find_attempt ''at1'' (attempts (snd (finish_attempt 700000 ''u1'' ''at1'' ex_db2)))) =
     Some Completed \<and>
   map_option at_endTime
     (find_attempt ''at1'' (attempts (snd (finish_attempt 700000 ''u1'' ''at1'' ex_db2)))) =
     Some (Some 700000) \<and>
   map_option at_completionTime
     (find_attempt ''at1'' (attempts (snd (finish_attempt 700000 ''u1'' ''at1'' ex_db2)))) =
     Some (Some (Num 698))"
  by (simp add: example_defs handler_defs double_values)

text \<open>
  Claim C4 as the code has it: for an in-progress attempt of a stored assessment with
  \<open>now > startTime + duration\<close> (the duration in minutes, the times in milliseconds),
  FinishAttempt by the attempt's user does not time the attempt out. The request
  succeeds with the result of a finish in time: the sum of the points of the answers,
  the maximum possible score, the percentage, whether the passing score is reached, and
  the seconds from the start to \<open>now\<close>. The attempt is stored with status completed (not
  timed-out), \<open>endTime = now\<close> (which is not \<open>startTime + duration\<close>), a completion
  time counted up to \<open>now\<close> and that total score, and is otherwise unchanged. No
  FinishAttempt request, whoever sends it and whenever, times an attempt out: the
  timed-out attempts stored after it are those stored before it.
\<close>

theorem finish_ignores_time_limit:
  assumes "find_attempt attemptId (attempts s) = Some att"
    and "at_user att = userId"
    and "at_status att = InProgress"
    and "find_assessment (at_assessment att) (assessments s) = Some a"
    and "at_startTime att + as_duration a * 60000 < now"
  shows "fst (finish_attempt now userId attemptId s) =
           Inr \<lparr>r_totalScore = calc_totalScore (at_answers att),
                r_maxPossibleScore = at_maxPossibleScore att,
                r_percentage =
                  js_times (js_div (calc_totalScore (at_answers att)) (at_maxPossibleScore att)) 100,
                r_passed = (as_passingScore a \<le> calc_totalScore (at_answers att)),
                r_completionTime = js_div (now - at_startTime att) 1000\<rparr> \<and>
         find_attempt attemptId (attempts (snd (finish_attempt now userId attemptId s))) =
           Some (att\<lparr>at_status := Completed,
                     at_endTime := Some now,
                     at_completionTime := Some (js_div (now - at_startTime att) 1000),
                     at_totalScore := calc_totalScore (at_answers att)\<rparr>) \<and>
         map_option (\<lambda>x. (at_status x, at_endTime x, at_completionTime x))
           (find_attempt attemptId (attempts (snd (finish_attempt now userId attemptId s)))) =
           Some (Completed, Some now, Some (js_div (now - at_startTime att) 1000)) \<and>
         now \<noteq> at_startTime att + as_duration a * 60000 \<and>
         fst (finish_attempt now userId attemptId s) \<noteq> Inl TimeExpired \<and>
         fst (finish_attempt now userId attemptId s) \<noteq> Inl AlreadyFinalized \<and>
         filter (\<lambda>x. at_status x = TimedOut) (attempts (snd (finish_attempt t u i s'))) =
           filter (\<lambda>x. at_status x = TimedOut) (attempts s')"
  using finish_attempt_effect(2) [OF assms(1-3), of now] assms(5)
    finish_attempt_result [OF assms(1-4), of now] finish_attempt_timed_out [of t u i s']
  by (simp add: complete_attempt_def)

theorem finish_ignores_time_limit_witness:
  "fst (finish_attempt 700000 ''u1'' ''at1'' ex_db2) =
     Inr \<lparr>r_totalScore = 0, r_maxPossibleScore = 5, r_percentage = Num 0, r_passed = False,
          r_completionTime = Num 698\<rparr> \<and>
   map_option (\<lambda>x. (at_status x, at_endTime x, at_completionTime x, at_totalScore x))
     (find_attempt ''at1'' (attempts (snd (finish_attempt 700000 ''u1'' ''at1'' ex_db2)))) =
     Some (Completed, Some 700000, Some (Num 698), 0) \<and>
   2000 + 10 * 60000 < (700000 :: int) \<and>
   filter (\<lambda>x. at_status x = TimedOut)
     (attempts (snd (finish_attempt 700000 ''u1'' ''at1'' ex_db2))) = []"
proof -
  have u: "at_user (the (find_attempt ''at1'' (attempts ex_db2))) = ''u1''"
    "at_status (the (find_attempt ''at1'' (attempts ex_db2))) = InProgress"
    by (simp_all add: ex_db2_attempt)
  have a: "find_assessment (at_assessment (the (find_attempt ''at1'' (attempts ex_db2))))
      (assessments ex_db2) = Some (the (find_assessment ''as1'' (assessments ex_db2)))"
    by (simp add: ex_db2_attempt ex_db2_assessment)
  have l: "at_startTime (the (find_attempt ''at1'' (attempts ex_db2))) +
      as_duration (the (find_assessment ''as1'' (assessments ex_db2))) * 60000 < 700000"
    by (simp add: ex_db2_attempt ex_db2_assessment)
  have e: "filter (\<lambda>x. at_status x = TimedOut) (attempts ex_db2) = []"
    by (simp add: example_defs handler_defs)
  show ?thesis
    using finish_ignores_time_limit [OF ex_db2_attempt u [unfolded ex_db2_attempt option.sel]
        a [unfolded ex_db2_attempt option.sel] l [unfolded ex_db2_attempt option.sel],
        of 700000 "''u1''" "''at1''" ex_db2] e
    by (simp add: ex_db2_assessment calc_totalScore_def js_div_def js_times_def double_values)
qed

section \<open>An assessment without questions\<close>

text \<open>
  Claim C9: StartAttempt accepts a published assessment whose question list is empty
  and gives the attempt \<open>maxPossibleScore = 0\<close>; FinishAttempt on that attempt computes
  the percentage as \<open>(totalScore / maxPossibleScore) * 100\<close> without a guard, which is
  \<open>0 / 0\<close>: the response carries \<^verbatim>\<open>NaN\<close>. More generally, for every in-progress
  attempt whose \<open>maxPossibleScore\<close> is zero the division is by zero, and the percentage
  is \<^verbatim>\<open>NaN\<close> or an infinity, never a number.

  The assessment is created through \<^verbatim>\<open>POST /api/assessments\<close> with no questions, under
  an id not yet in use; the attempt's id is new; the schedule and the attempt limit let
  the user start; the duration is positive; and the random sort of no questions gives
  no questions.
\<close>

theorem empty_assessment_percentage:
  assumes "create_assessment role author aid body s0 = (Inr a, s1)"
    and "b_questions body = None \<or> b_questions body = Some []"
    and "b_status body = Some Published"
    and "find_assessment aid (assessments s0) = None"
    and "find_attempt new_id (attempts s0) = None"
    and "window_check a now = None"
    and "count_attempts aid userId (attempts s0) < as_allowedAttempts a"
    and "0 < as_duration a"
    and "shuffle [] = []"
  shows "as_totalPoints a = 0 \<and>
         fst (start_attempt shuffle now created new_id userId aid s1) =
           Inr \<lparr>sr_attemptId = new_id, sr_questions = [], sr_duration = as_duration a,
                sr_startTime = created\<rparr> \<and>
         find_attempt new_id
             (attempts (snd (start_attempt shuffle now created new_id userId aid s1))) =
           Some (new_attempt new_id aid userId created [] 0) \<and>
         fst (finish_attempt now' userId new_id
                (snd (start_attempt shuffle now created new_id userId aid s1))) =
           Inr \<lparr>r_totalScore = 0, r_maxPossibleScore = 0, r_percentage = NaN,
                r_passed = (as_passingScore a \<le> 0),
                r_completionTime = js_div (now' - created) 1000\<rparr> \<and>
         (\<forall>s att a' uid i t.
            find_attempt i (attempts s) = Some att \<and> at_user att = uid \<and>
            at_status att = InProgress \<and>
            find_assessment (at_assessment att) (assessments s) = Some a' \<and>
            at_maxPossibleScore att = 0 \<longrightarrow>
            map_sum id r_percentage (fst (finish_attempt t uid i s)) =
              Inr (if calc_totalScore (at_answers att) = 0 then NaN
                   else if calc_totalScore (at_answers att) > 0 then PosInfinity
                   else NegInfinity))"
proof -
  note c = create_assessment_totalPoints [OF assms(1)]
  have tp: "as_totalPoints a = 0" and qs: "as_questions a = []"
    using c(1,2) assms(2) by (auto simp: calc_totalPoints_def)
  have st: "as_status a = Published"
    using assms(1,3)
    by (auto simp: create_assessment_def Let_def split: if_splits option.splits)
  have fa: "find_assessment aid (assessments s1) = Some a"
    using find_assessment_append [OF assms(4) c(3)] c(4) by simp
  have at1: "attempts s1 = attempts s0"
    using c(4) by simp
  let ?s2 = "snd (start_attempt shuffle now created new_id userId aid s1)"
  let ?att = "new_attempt new_id aid userId created [] 0"
  have cnt: "count_attempts aid userId (attempts s1) < as_allowedAttempts a"
    using assms(7) at1 by simp
  note sa = start_attempt_success [OF fa st assms(6) cnt assms(8), of shuffle created new_id]
  have s2: "attempts ?s2 = attempts s0 @ [?att]" and as2: "assessments ?s2 = assessments s1"
    using sa(1) qs tp assms(9) at1 by simp_all
  have r: "fst (start_attempt shuffle now created new_id userId aid s1) =
           Inr \<lparr>sr_attemptId = new_id, sr_questions = [], sr_duration = as_duration a,
                sr_startTime = created\<rparr>"
    using sa(2) qs assms(9) by simp
  have f2: "find_attempt new_id (attempts ?s2) = Some ?att"
    using find_attempt_append [OF assms(5), of ?att] s2 by (simp add: new_attempt_def)
  have fa2: "find_assessment (at_assessment ?att) (assessments ?s2) = Some a"
    using fa as2 by (simp add: new_attempt_def)
  have fin: "fst (finish_attempt now' userId new_id ?s2) =
           Inr \<lparr>r_totalScore = 0, r_maxPossibleScore = 0, r_percentage = NaN,
                r_passed = (as_passingScore a \<le> 0),
                r_completionTime = js_div (now' - created) 1000\<rparr>"
    using finish_attempt_result [OF f2 _ _ fa2, of userId now']
    by (simp add: new_attempt_def calc_totalScore_def js_percentage_zero_max)
  have gen: "map_sum id r_percentage (fst (finish_attempt t uid i s)) =
              Inr (if calc_totalScore (at_answers att) = 0 then NaN
                   else if calc_totalScore (at_answers att) > 0 then PosInfinity
                   else NegInfinity)"
    if "find_attempt i (attempts s) = Some att" "at_user att = uid" "at_status att = InProgress"
      "find_assessment (at_assessment att) (assessments s) = Some a'"
      "at_maxPossibleScore att = 0" for s att a' uid i t
    using finish_attempt_result [OF that(1-4), of t] that(5)
    by (simp add: js_percentage_zero_max)
  show ?thesis using tp r f2 fin gen by blast
qed

theorem empty_assessment_percentage_witness:
  "fst (start_attempt rev 2000 2001 ''at9'' ''u1'' ''as2''
          (snd (create_assessment ''admin'' ''u0'' ''as2'' ex_empty_body ex_db0))) =
     Inr \<lparr>sr_attemptId = ''at9'', sr_questions = [], sr_duration = 10, sr_startTime = 2001\<rparr> \<and>
   map_option at_maxPossibleScore (find_attempt ''at9'' (attempts
       (snd (start_attempt rev 2000 2001 ''at9'' ''u1'' ''as2''
          (snd (create_assessment ''admin'' ''u0'' ''as2'' ex_empty_body ex_db0)))))) = Some 0 \<and>
   fst (finish_attempt 3001 ''u1'' ''at9''
          (snd (start_attempt rev 2000 2001 ''at9'' ''u1'' ''as2''
             (snd (create_assessment ''admin'' ''u0'' ''as2'' ex_empty_body ex_db0))))) =
     Inr \<lparr>r_totalScore = 0, r_maxPossibleScore = 0, r_percentage = NaN, r_passed = True,
          r_completionTime = Num 1\<rparr>"
proof -
  have c: "create_assessment ''admin'' ''u0'' ''as2'' ex_empty_body ex_db0 =
      (Inr ex_empty_assessment,
       snd (create_assessment ''admin'' ''u0'' ''as2'' ex_empty_body ex_db0))"
    by (simp add: example_defs handler_defs)
  have h: "b_questions ex_empty_body = None \<or> b_questions ex_empty_body = Some []"
    "b_status ex_empty_body = Some Published"
    "find_assessment ''as2'' (assessments ex_db0) = None"
    "find_attempt ''at9'' (attempts ex_db0) = None"
    "window_check ex_empty_assessment 2000 = None"
    "count_attempts ''as2'' ''u1'' (attempts ex_db0) < as_allowedAttempts ex_empty_assessment"
    "0 < as_duration ex_empty_assessment"
    "rev [] = ([] :: aquestion list)"
    by (simp_all add: example_defs handler_defs)
  show ?thesis
    using empty_assessment_percentage [where shuffle = rev and created = 2001 and now' = 3001,
        OF c h]
    by (simp add: new_attempt_def ex_empty_assessment_def js_div_def double_values)
qed

section \<open>Two active sessions for one attempt\<close>

text \<open>
  Claim C7 says that at most one proctor session with status active exists for a pair
  of attempt and user at any time. The handler of \<^verbatim>\<open>POST /api/proctor/sessions\<close> looks
  for an active session (lines 175-179) and saves the new one later (line 193), and
  the collection has no unique index. Two requests for the attempt \<open>at1\<close> of the user
  \<open>u1\<close>, the second looking for an active session before the first has saved its own,
  are both answered with the new session, and both sessions are stored as active. Served
  one after the other, the second of the two requests is refused.
\<close>

theorem overlapping_starts_both_active:
  "replies (run_proctor ex_two_starts empty_system) =
     [(1, Inr (SessionStarted ''s1'' ex_settings)), (2, Inr (SessionStarted ''s2'' ex_settings))] \<and>
   map ps_id (filter (is_active_for ''at1'' ''u1'')
                (sessions (store (run_proctor ex_two_starts empty_system)))) = [''s1'', ''s2''] \<and>
   map ps_status (sessions (store (run_proctor ex_two_starts empty_system))) =
     [SessionActive, SessionActive] \<and>
   map ps_attemptId (sessions (store (run_proctor ex_two_starts empty_system))) =
     [''at1'', ''at1''] \<and>
   map ps_userId (sessions (store (run_proctor ex_two_starts empty_system))) =
     [''u1'', ''u1''] \<and>
   \<not> unique_active (sessions (store (run_proctor ex_two_starts empty_system))) \<and>
   replies (run_proctor (serve 1 (ex_start 100 ''s1'') @ serve 2 (ex_start 101 ''s2''))
              empty_system) =
     [(1, Inr (SessionStarted ''s1'' ex_settings)), (2, Inl SessionAlreadyActive)]"
  by (simp add: example_defs proctor_defs unique_active_def)

text \<open>
  Served one after the other, with no step of another request between the steps of a
  request, the requests keep at most one active session for every attempt and user:
  the check of lines 175-183 is enough when nothing is saved between the check and the
  save of line 193.
\<close>

lemma unique_active_iff:
  "unique_active xs \<longleftrightarrow> (\<forall>a u. length (filter (is_active_for a u) xs) \<le> 1)"
proof
  assume u: "unique_active xs"
  show "\<forall>a u. length (filter (is_active_for a u) xs) \<le> 1"
  proof (intro allI)
    fix a u
    show "length (filter (is_active_for a u) xs) \<le> 1"
    proof (cases "filter (is_active_for a u) xs")
      case Nil
      then show ?thesis by simp
    next
      case (Cons x rest)
      then have "x \<in> set (filter (is_active_for a u) xs)" by simp
      then have m: "x \<in> set xs" and p: "is_active_for a u x" by simp_all
      from p have "ps_attemptId x = a" "ps_userId x = u"
        by (simp_all add: is_active_for_def)
      with u m show ?thesis
        by (auto simp: unique_active_def list_all_iff)
    qed
  qed
next
  assume "\<forall>a u. length (filter (is_active_for a u) xs) \<le> 1"
  then show "unique_active xs"
    by (simp add: unique_active_def list_all_iff)
qed

lemma filter_update_session_le:
  "(\<And>x. P (f x) \<Longrightarrow> P x) \<Longrightarrow>
   length (filter P (update_session i f xs)) \<le> length (filter P xs)"
  by (induction xs) auto

lemma update_session_unique:
  assumes "unique_active xs"
    and "\<And>a u x. is_active_for a u (f x) \<Longrightarrow> is_active_for a u x"
  shows "unique_active (update_session i f xs)"
proof -
  have "length (filter (is_active_for a u) (update_session i f xs)) \<le> 1" for a u
  proof -
    have "length (filter (is_active_for a u) (update_session i f xs)) \<le>
        length (filter (is_active_for a u) xs)"
      by (rule filter_update_session_le) (rule assms(2))
    also have "\<dots> \<le> 1" using assms(1) by (simp add: unique_active_iff)
    finally show ?thesis .
  qed
  then show ?thesis by (simp add: unique_active_iff)
qed

lemma append_session_unique:
  assumes "unique_active xs"
    and "find (is_active_for attemptId userId) xs = None"
  shows "unique_active (xs @ [new_session created new_id userId attemptId assessmentId stg])"
proof -
  let ?n = "new_session created new_id userId attemptId assessmentId stg"
  have e: "filter (is_active_for attemptId userId) xs = []"
    using assms(2) by (simp add: find_None_iff filter_empty_conv)
  have "length (filter (is_active_for a u) (xs @ [?n])) \<le> 1" for a u
  proof (cases "a = attemptId \<and> u = userId")
    case True
    then show ?thesis using e by simp
  next
    case False
    then have "\<not> is_active_for a u ?n" by (auto simp: is_active_for_def new_session_def)
    then show ?thesis using assms(1) by (simp add: unique_active_iff)
  qed
  then show ?thesis by (simp add: unique_active_iff)
qed

lemma serve_unique:
  assumes "inflight sys = (\<lambda>r. None)"
    and "unique_active (sessions (store sys))"
  shows "inflight (run_proctor (serve r req) sys) = (\<lambda>r. None) \<and>
         unique_active (sessions (store (run_proctor (serve r req) sys)))"
proof (cases req)
  case (StartSession created new_id userId attemptId assessmentId stg)
  show ?thesis
  proof (cases "find (is_active_for attemptId userId) (sessions (store sys))")
    case (Some existingSession)
    then show ?thesis
      using assms StartSession by (simp add: run_proctor_def serve_def)
  next
    case None
    have "unique_active (sessions (store sys) @
        [new_session created new_id userId attemptId assessmentId stg])"
      using assms(2) None by (rule append_session_unique)
    then show ?thesis
      using assms(1) StartSession None by (simp add: run_proctor_def serve_def)
  qed
next
  case (EndSession now userId sessionId)
  have u: "unique_active (update_session i
      (\<lambda>x. x\<lparr>ps_status := SessionCompleted, ps_endTime := Some now\<rparr>) (sessions (store sys)))"
    for i
    using assms(2) by (rule update_session_unique) (simp add: is_active_for_def)
  show ?thesis
    using assms EndSession u
    by (simp add: run_proctor_def serve_def split: option.splits)
next
  case (RecordEvent now new_id userId body)
  have u: "unique_active (update_session i
      (\<lambda>x. x\<lparr>ps_events := ps_events x @ [ev], ps_anomalyScore := sc\<rparr>) (sessions (store sys)))"
    for i ev sc
    using assms(2) by (rule update_session_unique) (simp add: is_active_for_def)
  show ?thesis
    using assms RecordEvent u
    by (simp add: run_proctor_def serve_def split: option.splits)
qed

lemma serial_service_unique_active:
  "inflight (run_proctor (serve_all reqs) empty_system) = (\<lambda>r. None) \<and>
   unique_active (sessions (store (run_proctor (serve_all reqs) empty_system)))"
proof (induction reqs rule: rev_induct)
  case Nil
  then show ?case
    by (simp add: serve_all_def run_proctor_def empty_system_def unique_active_def)
next
  case (snoc q reqs)
  obtain r req where q: "q = (r, req)" by (cases q)
  have "run_proctor (serve_all (reqs @ [q])) empty_system =
      run_proctor (serve r req) (run_proctor (serve_all reqs) empty_system)"
    by (simp add: q serve_all_def run_proctor_def)
  then show ?case
    using serve_unique [of "run_proctor (serve_all reqs) empty_system" r req] snoc.IH by simp
qed

section \<open>The anomaly score\<close>

lemma find_session_id: "find_session i xs = Some x \<Longrightarrow> ps_id x = i"
  by (auto simp: find_session_def find_Some_iff)

lemma find_session_mem: "find_session i xs = Some x \<Longrightarrow> x \<in> set xs"
  by (auto simp: find_session_def find_Some_iff)

lemma find_update_session:
  "find_session i xs = Some x \<Longrightarrow> ps_id (f x) = i \<Longrightarrow>
   find_session i (update_session i f xs) = Some (f x)"
  by (induction xs) (auto simp: find_session_def split: if_splits)

lemma update_session_all:
  "\<forall>x \<in> set xs. P x \<Longrightarrow> (\<And>x. P x \<Longrightarrow> P (f x)) \<Longrightarrow> \<forall>x \<in> set (update_session i f xs). P x"
  by (induction xs) auto

lemma score_ok_zero: "score_ok (Num 0)"
proof -
  have "dyadic 0" unfolding dyadic_def by (intro exI [of _ 0]) simp
  then show ?thesis by (simp add: score_ok_def)
qed

text \<open>Every score that the service stores, and every score that a waiting handler
  holds, is a non-negative double or \<^verbatim>\<open>Infinity\<close>, whatever the order of the steps.\<close>

lemma begin_request_held:
  assumes "\<forall>x \<in> set (sessions s). score_ok (ps_anomalyScore x)"
    and "begin_request req s = Inr p"
  shows "score_ok (ps_anomalyScore (held p))"
proof (cases req)
  case (StartSession created new_id userId attemptId assessmentId stg)
  then show ?thesis
    using assms(2) by (auto simp: new_session_def score_ok_zero split: option.splits)
next
  case (EndSession now userId sessionId)
  then show ?thesis
    using assms find_session_mem [of sessionId "sessions s"]
    by (auto split: option.splits if_splits)
next
  case (RecordEvent now new_id userId body)
  then show ?thesis
    using assms find_session_mem [of "eb_sessionId body" "sessions s"]
    by (auto split: option.splits if_splits)
qed

lemma continue_request_scores:
  assumes "\<forall>x \<in> set (sessions s). score_ok (ps_anomalyScore x)"
    and "score_ok (ps_anomalyScore (held p))"
  shows "\<forall>x \<in> set (sessions (fst (continue_request p s))). score_ok (ps_anomalyScore x)"
proof (cases p)
  case (StartChecked session)
  then show ?thesis using assms by simp
next
  case (EndLoaded session now)
  have "\<forall>x \<in> set (update_session (ps_id session)
      (\<lambda>x. x\<lparr>ps_status := SessionCompleted, ps_endTime := Some now\<rparr>) (sessions s)).
      score_ok (ps_anomalyScore x)"
    using assms(1) by (rule update_session_all) simp
  then show ?thesis using EndLoaded by simp
next
  case (EventLoaded session event)
  then show ?thesis using assms(1) by simp
next
  case (EventStored session event)
  have k: "score_ok (js_add (ps_anomalyScore session) (severityValue (e_severity event)))"
    using assms(2) EventStored by (simp add: js_add_severity)
  have "\<forall>x \<in> set (update_session (ps_id session)
      (\<lambda>x. x\<lparr>ps_events := ps_events x @ [event],
              ps_anomalyScore := js_add (ps_anomalyScore session)
                                   (severityValue (e_severity event))\<rparr>) (sessions s)).
      score_ok (ps_anomalyScore x)"
    using assms(1) by (rule update_session_all) (simp add: k)
  then show ?thesis using EventStored by simp
qed

lemma continue_request_held:
  assumes "score_ok (ps_anomalyScore (held p))"
    and "snd (continue_request p s) = Inl p'"
  shows "score_ok (ps_anomalyScore (held p'))"
  using assms by (cases p) (auto split: if_splits)

lemma act_scores_ok:
  assumes "scores_ok sys"
  shows "scores_ok (act a sys)"
proof (cases a)
  case (Begin r req)
  show ?thesis
  proof (cases "inflight sys r")
    case (Some p)
    then show ?thesis using assms Begin by simp
  next
    case None
    show ?thesis
    proof (cases "begin_request req (store sys)")
      case (Inl e)
      then show ?thesis using assms Begin None by (simp add: scores_ok_def)
    next
      case (Inr p)
      have "score_ok (ps_anomalyScore (held p))"
        using assms Inr by (intro begin_request_held [of "store sys" req p]) (simp_all add: scores_ok_def)
      then show ?thesis using assms Begin None Inr by (simp add: scores_ok_def)
    qed
  qed
next
  case (Continue r)
  show ?thesis
  proof (cases "inflight sys r")
    case None
    then show ?thesis using assms Continue by simp
  next
    case (Some p)
    obtain s o' where c: "continue_request p (store sys) = (s, o')"
      by (cases "continue_request p (store sys)")
    have h: "score_ok (ps_anomalyScore (held p))"
      using assms Some by (simp add: scores_ok_def)
    have st: "\<forall>x \<in> set (sessions s). score_ok (ps_anomalyScore x)"
      using continue_request_scores [of "store sys" p] assms h c by (simp add: scores_ok_def)
    show ?thesis
    proof (cases o')
      case (Inl p')
      have "score_ok (ps_anomalyScore (held p'))"
        using continue_request_held [OF h, of "store sys" p'] c Inl by simp
      then show ?thesis
        using assms Continue Some c Inl st by (simp add: scores_ok_def)
    next
      case (Inr b)
      then show ?thesis
        using assms Continue Some c st by (simp add: scores_ok_def)
    qed
  qed
qed

lemma run_proctor_scores_ok: "scores_ok sys \<Longrightarrow> scores_ok (run_proctor acts sys)"
  unfolding run_proctor_def
  by (induction acts arbitrary: sys) (simp_all add: act_scores_ok)

lemma reachable_score_ok:
  assumes "find_session i (sessions (store (run_proctor acts empty_system))) = Some x"
  shows "score_ok (ps_anomalyScore x)"
proof -
  have "scores_ok empty_system" by (simp add: scores_ok_def empty_system_def)
  then have "scores_ok (run_proctor acts empty_system)" by (rule run_proctor_scores_ok)
  then show ?thesis using find_session_mem [OF assms] by (simp add: scores_ok_def)
qed

text \<open>A request to record an event, served alone.\<close>

lemma serve_record_event:
  assumes "inflight sys r = None"
    and "find_session sessionId (sessions (store sys)) = Some x"
    and "ps_userId x = userId"
    and "ps_status x = SessionActive"
    and "valid_event_request sessionId body"
  shows "run_proctor (serve r (RecordEvent now new_id userId body)) sys =
           sys\<lparr>store := (store sys)
                  \<lparr>events := events (store sys) @ [new_event x now new_id userId body],
                   sessions := update_session sessionId
                     (\<lambda>y. y\<lparr>ps_events := ps_events y @ [new_event x now new_id userId body],
                             ps_anomalyScore := js_add (ps_anomalyScore x) (event_weight body)\<rparr>)
                     (sessions (store sys))\<rparr>,
               replies := replies sys @ [(r, Inr (EventRecorded new_id))]\<rparr>"
proof -
  have i: "ps_id x = sessionId" using assms(2) by (rule find_session_id)
  have b: "eb_sessionId body = sessionId" "eb_type body \<in> set event_types"
    "body_severity (eb_severity body) \<in> set severities"
    using assms(5) by (simp_all add: valid_event_request_def)
  have f: "(inflight sys)(r := None) = inflight sys"
    using assms(1) by (simp add: fun_upd_idem)
  show ?thesis
    using assms(1-4) i b f
    by (simp add: run_proctor_def serve_def new_event_def event_weight_def)
qed

lemma serve_record_event_invalid:
  assumes "inflight sys r = None"
    and "find_session sessionId (sessions (store sys)) = Some x"
    and "ps_userId x = userId"
    and "ps_status x = SessionActive"
    and "eb_sessionId body = sessionId"
    and "\<not> valid_event_request sessionId body"
  shows "run_proctor (serve r (RecordEvent now new_id userId body)) sys =
           sys\<lparr>replies := replies sys @ [(r, Inl ServerError)]\<rparr>"
proof -
  have b: "eb_type body \<notin> set event_types \<or> body_severity (eb_severity body) \<notin> set severities"
    using assms(5,6) by (simp add: valid_event_request_def)
  have f: "(inflight sys)(r := None) = inflight sys"
    using assms(1) by (simp add: fun_upd_idem)
  show ?thesis
    using assms(1-5) b f
    by (auto simp: run_proctor_def serve_def new_event_def)
qed

lemma serve_records_Cons:
  "run_proctor (serve_records userId (q # qs)) sys =
     run_proctor (serve_records userId qs)
       (run_proctor (serve (er_name q) (RecordEvent (er_now q) (er_id q) userId (er_body q))) sys)"
  by (simp add: serve_records_def serve_all_def run_proctor_def record_request_def)

lemma new_event_same:
  "ps_attemptId y = ps_attemptId x \<Longrightarrow> ps_assessmentId y = ps_assessmentId x \<Longrightarrow>
   new_event y now new_id userId body = new_event x now new_id userId body"
  by (simp add: new_event_def)

lemma serve_records_run:
  assumes "find_session sessionId (sessions (store sys)) = Some x"
    and "ps_userId x = userId"
    and "ps_status x = SessionActive"
    and "list_all (\<lambda>q. inflight sys (er_name q) = None \<and>
                        valid_event_request sessionId (er_body q)) qs"
  shows "events (store (run_proctor (serve_records userId qs) sys)) =
           events (store sys) @ map (request_event x userId) qs \<and>
         find_session sessionId (sessions (store (run_proctor (serve_records userId qs) sys))) =
           Some (x\<lparr>ps_events := ps_events x @ map (request_event x userId) qs,
                   ps_anomalyScore :=
                     accumulate (ps_anomalyScore x) (map (event_weight \<circ> er_body) qs)\<rparr>) \<and>
         inflight (run_proctor (serve_records userId qs) sys) = inflight sys \<and>
         replies (run_proctor (serve_records userId qs) sys) =
           replies sys @ map (\<lambda>q. (er_name q, Inr (EventRecorded (er_id q)))) qs"
  using assms
proof (induction qs arbitrary: sys x)
  case Nil
  then show ?case
    by (simp add: serve_records_def serve_all_def run_proctor_def accumulate_def)
next
  case (Cons q qs)
  let ?ev = "new_event x (er_now q) (er_id q) userId (er_body q)"
  let ?f = "\<lambda>y. y\<lparr>ps_events := ps_events y @ [?ev],
                   ps_anomalyScore := js_add (ps_anomalyScore x) (event_weight (er_body q))\<rparr>"
  let ?sys = "run_proctor (serve (er_name q) (RecordEvent (er_now q) (er_id q) userId (er_body q))) sys"
  from Cons.prems(4) have n: "inflight sys (er_name q) = None"
    and v: "valid_event_request sessionId (er_body q)"
    and vs: "list_all (\<lambda>q. inflight sys (er_name q) = None \<and>
                        valid_event_request sessionId (er_body q)) qs"
    by simp_all
  note s = serve_record_event [OF n Cons.prems(1-3) v, of "er_now q" "er_id q"]
  have i: "ps_id x = sessionId" using Cons.prems(1) by (rule find_session_id)
  have st: "sessions (store ?sys) = update_session sessionId ?f (sessions (store sys))"
    and ev: "events (store ?sys) = events (store sys) @ [?ev]"
    and fl: "inflight ?sys = inflight sys"
    and rp: "replies ?sys = replies sys @ [(er_name q, Inr (EventRecorded (er_id q)))]"
    unfolding s by simp_all
  have f: "find_session sessionId (sessions (store ?sys)) = Some (?f x)"
    unfolding st using Cons.prems(1) by (rule find_update_session) (simp add: i)
  have vs': "list_all (\<lambda>q. inflight ?sys (er_name q) = None \<and>
                        valid_event_request sessionId (er_body q)) qs"
    unfolding fl by (rule vs)
  have u: "ps_userId (?f x) = userId" "ps_status (?f x) = SessionActive"
    using Cons.prems(2,3) by simp_all
  have e: "request_event (?f x) userId = request_event x userId"
    by (rule ext) (simp add: request_event_def new_event_def)
  note ih = Cons.IH [OF f u vs', unfolded e]
  show ?case
    unfolding serve_records_Cons
    using ih by (simp add: ev fl rp request_event_def accumulate_def)
qed

lemma list_all_take: "list_all P xs \<Longrightarrow> list_all P (take k xs)"
  by (auto simp: list_all_iff dest: in_set_takeD)

lemma accumulate_snoc: "accumulate n (ws @ [w]) = js_add (accumulate n ws) w"
  by (simp add: accumulate_def)

lemma accumulate_monotone:
  assumes "score_ok n" and "k < length qs"
  shows "js_le (accumulate n (map (event_weight \<circ> er_body) (take k qs)))
           (accumulate n (map (event_weight \<circ> er_body) (take (Suc k) qs)))"
proof -
  have m: "map (event_weight \<circ> er_body) xs =
      map severityValue (map (\<lambda>q. body_severity (eb_severity (er_body q))) xs)"
    for xs by (simp add: event_weight_def)
  have ok: "score_ok (accumulate n (map (event_weight \<circ> er_body) (take k qs)))"
    unfolding accumulate_def m using assms(1) by (rule foldl_js_add_score_ok)
  have "take (Suc k) qs = take k qs @ [qs ! k]"
    using assms(2) by (rule take_Suc_conv_app_nth)
  then show ?thesis
    using js_add_severity(1) [OF ok] by (simp add: accumulate_snoc event_weight_def)
qed

lemma to_double_3_2: "to_double (3 / 2) = Num (3 / 2)"
  using to_double_exact [of "- 52" 6755399441055744] by (simp add: pow2_eval)

lemma double_low_once:
  "to_double (3602879701896397 / 18014398509481984) = Num (3602879701896397 / 18014398509481984)"
  using to_double_exact [of "- 55" 7205759403792794] by (simp add: pow2_eval)

lemma double_low_twice:
  "to_double (3602879701896397 / 9007199254740992) = Num (3602879701896397 / 9007199254740992)"
  using to_double_exact [of "- 54" 7205759403792794] by (simp add: pow2_eval)

lemma double_low_thrice:
  "to_double (10808639105689191 / 18014398509481984) =
     Num (1351079888211149 / 2251799813685248)"
  using to_double_nearest [of "10808639105689191 / 18014398509481984" "- 53" 5404319552844596]
  by (simp add: in_binade_def pow2_eval round_half_even_tie_up)

lemma double_three_fifths:
  "to_double (3 / 5) = Num (5404319552844595 / 9007199254740992)"
  using to_double_nearest [of "3 / 5" "- 53" 5404319552844595]
  by (simp add: in_binade_def pow2_eval round_half_even_near)

lemma ex_started_session:
  "find_session ''s1'' (sessions (store ex_started)) =
     Some \<lparr>ps_id = ''s1'', ps_attemptId = ''at1'', ps_userId = ''u1'', ps_assessmentId = ''as1'',
           ps_startTime = 100, ps_endTime = None, ps_status = SessionActive,
           ps_settings = ex_settings, ps_events = [], ps_anomalyScore = Num 0\<rparr>"
  by (simp add: ex_started_def ex_start_def proctor_defs)

lemma ex_started_system:
  "ex_started =
     \<lparr>store = \<lparr>sessions = [\<lparr>ps_id = ''s1'', ps_attemptId = ''at1'', ps_userId = ''u1'',
                             ps_assessmentId = ''as1'', ps_startTime = 100, ps_endTime = None,
                             ps_status = SessionActive, ps_settings = ex_settings,
                             ps_events = [], ps_anomalyScore = Num 0\<rparr>],
               events = []\<rparr>,
      inflight = (\<lambda>r. None),
      replies = [(0, Inr (SessionStarted ''s1'' ex_settings))]\<rparr>"
  by (simp add: ex_started_def ex_start_def proctor_defs)

text \<open>
  Claim C8 says that every successful RecordEvent appends one ProctorEvent and adds the
  severity weight 0.2, 0.5 or 1.0 to the anomaly score, so that after N events the score
  is the exact sum of their weights. The score is a double and \<^verbatim>\<open>+=\<close> rounds: after three
  events of low severity on a new session, recorded one after the other, the score is
  \<open>1351079888211149 / 2251799813685248\<close> (printed \<^verbatim>\<open>0.6000000000000001\<close>), which is
  neither \<open>0.2 + 0.2 + 0.2\<close>, nor the double nearest to \<open>0.6\<close>, nor the exact sum of
  three times the double that \<^verbatim>\<open>0.2\<close> denotes.
\<close>

theorem three_low_events_not_exact:
  "map_option ps_anomalyScore
     (find_session ''s1'' (sessions (store (run_proctor
        (serve 1 (ex_record 150 ''e1'' ''low'') @ serve 2 (ex_record 160 ''e2'' ''low'') @
         serve 3 (ex_record 170 ''e3'' ''low''))
        ex_started)))) =
     Some (Num (1351079888211149 / 2251799813685248)) \<and>
   map_option (length \<circ> ps_events)
     (find_session ''s1'' (sessions (store (run_proctor
        (serve 1 (ex_record 150 ''e1'' ''low'') @ serve 2 (ex_record 160 ''e2'' ''low'') @
         serve 3 (ex_record 170 ''e3'' ''low''))
        ex_started)))) = Some 3 \<and>
   replies (run_proctor
        (serve 1 (ex_record 150 ''e1'' ''low'') @ serve 2 (ex_record 160 ''e2'' ''low'') @
         serve 3 (ex_record 170 ''e3'' ''low''))
        ex_started) =
     [(0, Inr (SessionStarted ''s1'' ex_settings)), (1, Inr (EventRecorded ''e1'')),
      (2, Inr (EventRecorded ''e2'')), (3, Inr (EventRecorded ''e3''))] \<and>
   (1351079888211149 / 2251799813685248 :: rat) \<noteq> 2 / 10 + 2 / 10 + 2 / 10 \<and>
   Num (1351079888211149 / 2251799813685248) \<noteq> to_double (2 / 10 + 2 / 10 + 2 / 10) \<and>
   event_weight (ex_event ''low'') = Num (3602879701896397 / 18014398509481984) \<and>
   (1351079888211149 / 2251799813685248 :: rat) \<noteq>
     3602879701896397 / 18014398509481984 + 3602879701896397 / 18014398509481984 +
     3602879701896397 / 18014398509481984"
  unfolding ex_started_system
  by (simp add: ex_record_def ex_event_def proctor_defs double_values double_low_once
      double_low_twice double_low_thrice double_three_fifths)

text \<open>
  Claim C8 as the code has it, for requests served one at a time. Take a session that
  is active in a state the service can reach (by any order of the steps of any
  requests), and requests by its user to record events in it whose numbers name no
  waiting handler. A request is valid if its event type is listed and its severity is
  low, medium or high. Then:
  \<^item> a valid request, served with no step of another request between its steps, is
    answered with the id of its event, appends exactly one event to the event
    collection and to the session, and leaves the session's anomaly score at the score
    it read plus its weight, rounded to the nearest double; nothing else changes;
  \<^item> a request that is not valid, served in the same way, is answered with a server
    error and changes nothing;
  \<^item> the score plus a weight, rounded, is at least the score;
  \<^item> after the first \<open>k\<close> of a list of valid requests, served one after the other with
    no step of another request in between, the event collection and the session have
    received the \<open>k\<close> events in their order, the requests have been answered in their
    order, and the session's anomaly score is its score at the start with the \<open>k\<close>
    weights added one after the other, each addition rounded to the nearest double;
  \<^item> that score is at least the score after the first \<open>k - 1\<close> requests;
  \<^item> the weights are the doubles that \<^verbatim>\<open>0.2\<close> (low), \<^verbatim>\<open>0.5\<close> (medium) and \<^verbatim>\<open>1.0\<close>
    (high) denote.
\<close>

theorem anomaly_score_accumulates:
  assumes "sys = run_proctor acts empty_system"
    and "find_session sessionId (sessions (store sys)) = Some x"
    and "ps_userId x = userId"
    and "ps_status x = SessionActive"
    and "list_all (\<lambda>q. inflight sys (er_name q) = None \<and>
                        valid_event_request sessionId (er_body q)) qs"
  shows "(inflight sys r = None \<and> valid_event_request sessionId body \<longrightarrow>
            run_proctor (serve r (RecordEvent now new_id userId body)) sys =
              sys\<lparr>store := (store sys)
                     \<lparr>events := events (store sys) @ [new_event x now new_id userId body],
                      sessions := update_session sessionId
                        (\<lambda>y. y\<lparr>ps_events := ps_events y @ [new_event x now new_id userId body],
                                ps_anomalyScore :=
                                  js_add (ps_anomalyScore x) (event_weight body)\<rparr>)
                        (sessions (store sys))\<rparr>,
                  replies := replies sys @ [(r, Inr (EventRecorded new_id))]\<rparr> \<and>
            find_session sessionId
              (sessions (store (run_proctor (serve r (RecordEvent now new_id userId body)) sys))) =
              Some (x\<lparr>ps_events := ps_events x @ [new_event x now new_id userId body],
                      ps_anomalyScore := js_add (ps_anomalyScore x) (event_weight body)\<rparr>)) \<and>
         (inflight sys r = None \<and> eb_sessionId body = sessionId \<and>
          \<not> valid_event_request sessionId body \<longrightarrow>
            run_proctor (serve r (RecordEvent now new_id userId body)) sys =
              sys\<lparr>replies := replies sys @ [(r, Inl ServerError)]\<rparr>) \<and>
         js_le (ps_anomalyScore x) (js_add (ps_anomalyScore x) (event_weight body)) \<and>
         (\<forall>k \<le> length qs.
            events (store (run_proctor (serve_records userId (take k qs)) sys)) =
              events (store sys) @ map (request_event x userId) (take k qs) \<and>
            find_session sessionId
              (sessions (store (run_proctor (serve_records userId (take k qs)) sys))) =
              Some (x\<lparr>ps_events := ps_events x @ map (request_event x userId) (take k qs),
                      ps_anomalyScore :=
                        accumulate (ps_anomalyScore x)
                          (map (event_weight \<circ> er_body) (take k qs))\<rparr>) \<and>
            replies (run_proctor (serve_records userId (take k qs)) sys) =
              replies sys @ map (\<lambda>q. (er_name q, Inr (EventRecorded (er_id q)))) (take k qs)) \<and>
         (\<forall>k < length qs.
            js_le (accumulate (ps_anomalyScore x) (map (event_weight \<circ> er_body) (take k qs)))
                  (accumulate (ps_anomalyScore x)
                     (map (event_weight \<circ> er_body) (take (Suc k) qs)))) \<and>
         (\<forall>q \<in> set qs.
            event_weight (er_body q) =
              (if body_severity (eb_severity (er_body q)) = ''low''
               then Num (3602879701896397 / 18014398509481984)
               else if body_severity (eb_severity (er_body q)) = ''medium''
               then Num (1 / 2) else Num 1)) \<and>
         to_double (2 / 10) = Num (3602879701896397 / 18014398509481984) \<and>
         to_double (5 / 10) = Num (1 / 2) \<and>
         to_double 1 = Num 1"
proof -
  have ok: "score_ok (ps_anomalyScore x)"
    using assms(2) unfolding assms(1) by (rule reachable_score_ok)
  have i: "ps_id x = sessionId" using assms(2) by (rule find_session_id)
  have one: "run_proctor (serve r (RecordEvent now new_id userId body)) sys =
              sys\<lparr>store := (store sys)
                     \<lparr>events := events (store sys) @ [new_event x now new_id userId body],
                      sessions := update_session sessionId
                        (\<lambda>y. y\<lparr>ps_events := ps_events y @ [new_event x now new_id userId body],
                                ps_anomalyScore :=
                                  js_add (ps_anomalyScore x) (event_weight body)\<rparr>)
                        (sessions (store sys))\<rparr>,
                  replies := replies sys @ [(r, Inr (EventRecorded new_id))]\<rparr> \<and>
            find_session sessionId
              (sessions (store (run_proctor (serve r (RecordEvent now new_id userId body)) sys))) =
              Some (x\<lparr>ps_events := ps_events x @ [new_event x now new_id userId body],
                      ps_anomalyScore := js_add (ps_anomalyScore x) (event_weight body)\<rparr>)"
    if n: "inflight sys r = None" and v: "valid_event_request sessionId body"
  proof -
    note s = serve_record_event [OF n assms(2-4) v, of now new_id]
    have "find_session sessionId (update_session sessionId
        (\<lambda>y. y\<lparr>ps_events := ps_events y @ [new_event x now new_id userId body],
                ps_anomalyScore := js_add (ps_anomalyScore x) (event_weight body)\<rparr>)
        (sessions (store sys))) =
        Some (x\<lparr>ps_events := ps_events x @ [new_event x now new_id userId body],
                ps_anomalyScore := js_add (ps_anomalyScore x) (event_weight body)\<rparr>)"
      using assms(2) by (rule find_update_session) (simp add: i)
    then show ?thesis unfolding s by simp
  qed
  have bad: "run_proctor (serve r (RecordEvent now new_id userId body)) sys =
              sys\<lparr>replies := replies sys @ [(r, Inl ServerError)]\<rparr>"
    if "inflight sys r = None" and "eb_sessionId body = sessionId"
      and "\<not> valid_event_request sessionId body"
    using that(1) assms(2-4) that(2,3) by (rule serve_record_event_invalid)
  have up: "js_le (ps_anomalyScore x) (js_add (ps_anomalyScore x) (event_weight body))"
    unfolding event_weight_def using ok by (rule js_add_severity)
  have run: "events (store (run_proctor (serve_records userId (take k qs)) sys)) =
              events (store sys) @ map (request_event x userId) (take k qs) \<and>
            find_session sessionId
              (sessions (store (run_proctor (serve_records userId (take k qs)) sys))) =
              Some (x\<lparr>ps_events := ps_events x @ map (request_event x userId) (take k qs),
                      ps_anomalyScore :=
                        accumulate (ps_anomalyScore x)
                          (map (event_weight \<circ> er_body) (take k qs))\<rparr>) \<and>
            replies (run_proctor (serve_records userId (take k qs)) sys) =
              replies sys @ map (\<lambda>q. (er_name q, Inr (EventRecorded (er_id q)))) (take k qs)"
    for k
    using serve_records_run [OF assms(2-4) list_all_take [OF assms(5), of k]] by simp
  have mono: "\<forall>k < length qs.
            js_le (accumulate (ps_anomalyScore x) (map (event_weight \<circ> er_body) (take k qs)))
                  (accumulate (ps_anomalyScore x)
                     (map (event_weight \<circ> er_body) (take (Suc k) qs)))"
    using accumulate_monotone [OF ok] by blast
  have w: "event_weight (er_body q) =
              (if body_severity (eb_severity (er_body q)) = ''low''
               then Num (3602879701896397 / 18014398509481984)
               else if body_severity (eb_severity (er_body q)) = ''medium''
               then Num (1 / 2) else Num 1)" if "q \<in> set qs" for q
  proof -
    from that assms(5) have "valid_event_request sessionId (er_body q)"
      by (simp add: list_all_iff)
    then have "body_severity (eb_severity (er_body q)) \<in> {''low'', ''medium'', ''high''}"
      by (simp add: valid_event_request_def severities_def)
    then show ?thesis
      by (auto simp: event_weight_def severityValue_values)
  qed
  have d: "to_double (2 / 10) = Num (3602879701896397 / 18014398509481984)"
    "to_double (5 / 10) = Num (1 / 2)" "to_double 1 = Num 1"
    by (simp_all add: double_values)
  from one bad up run mono w d show ?thesis by blast
qed

theorem anomaly_score_accumulates_witness:
  "map_option (\<lambda>x. (map e_id (ps_events x), ps_anomalyScore x))
     (find_session ''s1'' (sessions (store (run_proctor
        (serve_records ''u1'' [ex_request 1 150 ''e1'' ''medium'', ex_request 2 160 ''e2'' ''high'',
                               ex_request 3 170 ''e3'' ''medium''])
        ex_started)))) = Some ([''e1'', ''e2'', ''e3''], Num 2) \<and>
   map e_id (events (store (run_proctor
        (serve_records ''u1'' [ex_request 1 150 ''e1'' ''medium'', ex_request 2 160 ''e2'' ''high'',
                               ex_request 3 170 ''e3'' ''medium''])
        ex_started))) = [''e1'', ''e2'', ''e3''] \<and>
   replies (run_proctor
        (serve_records ''u1'' [ex_request 1 150 ''e1'' ''medium'', ex_request 2 160 ''e2'' ''high'',
                               ex_request 3 170 ''e3'' ''medium''])
        ex_started) =
     [(0, Inr (SessionStarted ''s1'' ex_settings)), (1, Inr (EventRecorded ''e1'')),
      (2, Inr (EventRecorded ''e2'')), (3, Inr (EventRecorded ''e3''))] \<and>
   js_le (Num 0) (Num (1 / 2)) \<and> js_le (Num (1 / 2)) (Num (3 / 2)) \<and> js_le (Num (3 / 2)) (Num 2) \<and>
   map_option (\<lambda>x. (map e_id (ps_events x), ps_anomalyScore x))
     (find_session ''s1'' (sessions (store (run_proctor
        (serve 4 (RecordEvent 180 ''e4'' ''u1'' (ex_event ''high''))) ex_started)))) =
     Some ([''e4''], Num 1) \<and>
   run_proctor (serve 5 (RecordEvent 180 ''e5'' ''u1'' (ex_event ''extreme''))) ex_started =
     ex_started\<lparr>replies := replies ex_started @ [(5, Inl ServerError)]\<rparr>"
proof -
  let ?qs = "[ex_request 1 150 ''e1'' ''medium'', ex_request 2 160 ''e2'' ''high'',
              ex_request 3 170 ''e3'' ''medium'']"
  let ?x = "\<lparr>ps_id = ''s1'', ps_attemptId = ''at1'', ps_userId = ''u1'', ps_assessmentId = ''as1'',
           ps_startTime = 100, ps_endTime = None, ps_status = SessionActive,
           ps_settings = ex_settings, ps_events = [], ps_anomalyScore = Num 0\<rparr>"
  have r: "ex_started = run_proctor (serve 0 (ex_start 100 ''s1'')) empty_system"
    by (rule ex_started_def)
  have h: "ps_userId ?x = ''u1''" "ps_status ?x = SessionActive"
    "list_all (\<lambda>q. inflight ex_started (er_name q) = None \<and>
                    valid_event_request ''s1'' (er_body q)) ?qs"
    by (simp_all add: ex_started_system valid_event_request_def ex_request_def ex_event_def
        body_severity_def event_types_def severities_def)
  have n: "inflight ex_started 4 = None" "inflight ex_started 5 = None"
    by (simp_all add: ex_started_system)
  have v: "valid_event_request ''s1'' (ex_event ''high'')"
    "\<not> valid_event_request ''s1'' (ex_event ''extreme'')"
    "eb_sessionId (ex_event ''extreme'') = ''s1''"
    by (simp_all add: valid_event_request_def ex_event_def body_severity_def event_types_def
        severities_def)
  have a: "accumulate (Num 0) (map (event_weight \<circ> er_body) ?qs) = Num 2"
    "accumulate (Num 0) (map (event_weight \<circ> er_body) (take 1 ?qs)) = Num (1 / 2)"
    "accumulate (Num 0) (map (event_weight \<circ> er_body) (take 2 ?qs)) = Num (3 / 2)"
    "js_add (Num 0) (event_weight (ex_event ''high'')) = Num 1"
    by (simp_all add: accumulate_def event_weight_def ex_request_def ex_event_def
        body_severity_def severityValue_values double_values to_double_3_2)
  note t4 = anomaly_score_accumulates [where r = 4 and body = "ex_event ''high''" and now = 180
      and new_id = "''e4''", OF r ex_started_session h]
  note t5 = anomaly_score_accumulates [where r = 5 and body = "ex_event ''extreme''"
      and now = 180 and new_id = "''e5''", OF r ex_started_session h]
  have 1: "map_option (\<lambda>x. (map e_id (ps_events x), ps_anomalyScore x))
     (find_session ''s1'' (sessions (store (run_proctor
        (serve 4 (RecordEvent 180 ''e4'' ''u1'' (ex_event ''high''))) ex_started)))) =
     Some ([''e4''], Num 1)"
    using t4 [THEN conjunct1, rule_format, OF conjI [OF n(1) v(1)], THEN conjunct2] a(4)
    by (simp add: new_event_def)
  have 2: "run_proctor (serve 5 (RecordEvent 180 ''e5'' ''u1'' (ex_event ''extreme''))) ex_started =
     ex_started\<lparr>replies := replies ex_started @ [(5, Inl ServerError)]\<rparr>"
    using t5 [THEN conjunct2, THEN conjunct1] n(2) v(2,3) by simp
  note k = t4 [THEN conjunct2, THEN conjunct2, THEN conjunct2, THEN conjunct1, rule_format, of 3]
  have 3: "map_option (\<lambda>x. (map e_id (ps_events x), ps_anomalyScore x))
     (find_session ''s1'' (sessions (store (run_proctor (serve_records ''u1'' ?qs) ex_started)))) =
       Some ([''e1'', ''e2'', ''e3''], Num 2)"
    and 4: "map e_id (events (store (run_proctor (serve_records ''u1'' ?qs) ex_started))) =
       [''e1'', ''e2'', ''e3'']"
    and 5: "replies (run_proctor (serve_records ''u1'' ?qs) ex_started) =
     [(0, Inr (SessionStarted ''s1'' ex_settings)), (1, Inr (EventRecorded ''e1'')),
      (2, Inr (EventRecorded ''e2'')), (3, Inr (EventRecorded ''e3''))]"
    using k a(1)
    by (simp_all add: request_event_def new_event_def ex_request_def ex_started_system)
  note m = t4 [THEN conjunct2, THEN conjunct2, THEN conjunct2, THEN conjunct2, THEN conjunct1,
      rule_format]
  have 6: "js_le (Num 0) (Num (1 / 2))" "js_le (Num (1 / 2)) (Num (3 / 2))"
    "js_le (Num (3 / 2)) (Num 2)"
    using m [of 0] m [of 1] m [of 2] a(1-3) by (simp_all add: accumulate_def)
  show ?thesis using 1 2 3 4 5 6 by simp
qed

section \<open>Events recorded together\<close>

text \<open>
  The handler of \<^verbatim>\<open>POST /api/proctor/events\<close> reads the session (line 287), waits for
  the event to be saved (line 314), and then writes the score it has read plus the
  weight (lines 333-334). When a second request reads the session before the first
  has written it, both start from the same score, and the later write replaces the
  earlier one:
  \<^item> two events of medium severity recorded together in a new session are both
    answered with success and both pushed to the session, whose score is left at
    \<open>0.5\<close>;
  \<^item> an event of high and an event of low severity recorded together leave the score
    at \<open>1\<close> after the first has written, and at the double of \<^verbatim>\<open>0.2\<close> after the
    second has: the score has gone down.
\<close>

lemma overlapping_events_lose_an_update:
  "map_option ps_anomalyScore
     (find_session ''s1'' (sessions (store (run_proctor (ex_two_events ''medium'' ''medium'')
        ex_started)))) = Some (Num (1 / 2)) \<and>
   map_option (map e_id \<circ> ps_events)
     (find_session ''s1'' (sessions (store (run_proctor (ex_two_events ''medium'' ''medium'')
        ex_started)))) = Some [''e1'', ''e2''] \<and>
   replies (run_proctor (ex_two_events ''medium'' ''medium'') ex_started) =
     [(0, Inr (SessionStarted ''s1'' ex_settings)), (1, Inr (EventRecorded ''e1'')),
      (2, Inr (EventRecorded ''e2''))] \<and>
   map_option ps_anomalyScore
     (find_session ''s1'' (sessions (store (run_proctor (take 4 (ex_two_events ''high'' ''low''))
        ex_started)))) = Some (Num 1) \<and>
   map_option ps_anomalyScore
     (find_session ''s1'' (sessions (store (run_proctor (ex_two_events ''high'' ''low'')
        ex_started)))) = Some (Num (3602879701896397 / 18014398509481984)) \<and>
   \<not> js_le (Num 1) (Num (3602879701896397 / 18014398509481984))"
  unfolding ex_started_system
  by (simp add: ex_two_events_def ex_record_def ex_event_def proctor_defs double_values
      double_low_once)

end
